theory Spec2Isabelle
  imports Main "HOL-Library.Word" "HOL-Library.AList" "HOL-Library.List_Lexorder" "HOL-Library.Sublist"
begin

unbundle bit_operations_syntax

section \<open>Python values\<close>

text \<open>
  A Python \<open>str\<close> is a sequence of Unicode code points, so it is modelled as a list of
  natural numbers. \<open>ustr\<close> turns an ASCII literal into such a string. With
  \<open>List_Lexorder\<close> the order on these lists is the lexicographic order on code points,
  which is the order Python's \<open>sorted\<close> uses on strings.
\<close>

type_synonym ustring = "nat list"
type_synonym byte = "8 word"

definition ustr :: "string \<Rightarrow> ustring" where
  "ustr s = map of_char s"

text \<open>
  The values a parameter or a spreadsheet cell can hold. A float is kept as its IEEE-754
  binary64 bit pattern.
\<close>

datatype pyval = PNone | PStr ustring | PBool bool | PInt int | PFloat "64 word"

text \<open>A \<open>dict\<close> is an association list in insertion order whose keys are distinct.\<close>

type_synonym pydict = "(ustring \<times> pyval) list"

datatype exn =
    RuntimeError ustring
  | UnicodeEncodeError
  | TypeError
  | LibraryError ustring

text \<open>
  The functions of the Python library that the script calls and that are not part of the
  repository: \<open>repr\<close> of a float, \<open>unicodedata.normalize("NFKD", _)\<close>, the Unicode
  alphanumeric property behind the regular expression class \<open>\w\<close> (used above
  code point 127 only), \<open>hashlib.sha1(_).hexdigest()\<close>, \<open>base64.b64encode\<close> and the
  message text of the exceptions that Python itself raises.
\<close>

record pylib =
  repr_float :: "64 word \<Rightarrow> ustring"
  normalize_nfkd :: "ustring \<Rightarrow> ustring"
  unicode_isalnum :: "nat \<Rightarrow> bool"
  sha1_hexdigest :: "byte list \<Rightarrow> ustring"
  b64encode :: "byte list \<Rightarrow> ustring"
  str_builtin_exn :: "exn \<Rightarrow> ustring"

function str_nat :: "nat \<Rightarrow> ustring" where
  "str_nat n = (if n < 10 then [48 + n] else str_nat (n div 10) @ [48 + n mod 10])"
  by pat_completeness auto
termination
  by (relation "measure id") auto

definition str_int :: "int \<Rightarrow> ustring" where
  "str_int i = (if i < 0 then 45 # str_nat (nat (- i)) else str_nat (nat i))"

text \<open>\<open>str(v)\<close>, which is also what an f-string field \<open>{v}\<close> produces.\<close>

fun py_str :: "pylib \<Rightarrow> pyval \<Rightarrow> ustring" where
  "py_str lib PNone = ustr ''None''"
| "py_str lib (PStr s) = s"
| "py_str lib (PBool b) = (if b then ustr ''True'' else ustr ''False'')"
| "py_str lib (PInt i) = str_int i"
| "py_str lib (PFloat w) = repr_float lib w"

text \<open>A float is zero when all bits but the sign are clear; it is a NaN when the
  exponent is all ones and the fraction is not zero.\<close>

definition float_is_zero :: "64 word \<Rightarrow> bool" where
  "float_is_zero w = (w AND 0x7FFFFFFFFFFFFFFF = 0)"

definition float_is_nan :: "64 word \<Rightarrow> bool" where
  "float_is_nan w = (0x7FF0000000000000 < (w AND 0x7FFFFFFFFFFFFFFF))"

text \<open>
  \<open>v in (None, "", False)\<close>: membership in a tuple is identity or equality with one of
  its elements, and Python's \<open>==\<close> makes the numbers \<open>0\<close>, \<open>0.0\<close> and \<open>-0.0\<close> equal
  to \<open>False\<close>.
\<close>

fun in_none_empty_false :: "pyval \<Rightarrow> bool" where
  "in_none_empty_false PNone = True"
| "in_none_empty_false (PStr s) = (s = [])"
| "in_none_empty_false (PBool b) = (\<not> b)"
| "in_none_empty_false (PInt i) = (i = 0)"
| "in_none_empty_false (PFloat w) = float_is_zero w"

section \<open>Strings\<close>

text \<open>\<open>sep.join(parts)\<close>\<close>

fun join :: "ustring \<Rightarrow> ustring list \<Rightarrow> ustring" where
  "join sep [] = []"
| "join sep [x] = x"
| "join sep (x # y # ys) = x @ sep @ join sep (y # ys)"

text \<open>\<open>s.encode("utf-8")\<close>: a surrogate code point cannot be encoded.\<close>

definition utf8_char :: "nat \<Rightarrow> exn + byte list" where
  "utf8_char c =
     (if c < 0x80 then Inr [of_nat c]
      else if c < 0x800 then Inr [of_nat (0xC0 + c div 64), of_nat (0x80 + c mod 64)]
      else if c < 0x10000 then
        (if 0xD800 \<le> c \<and> c \<le> 0xDFFF then Inl UnicodeEncodeError
         else Inr [of_nat (0xE0 + c div 4096), of_nat (0x80 + (c div 64) mod 64),
                   of_nat (0x80 + c mod 64)])
      else if c < 0x110000 then
        Inr [of_nat (0xF0 + c div 262144), of_nat (0x80 + (c div 4096) mod 64),
             of_nat (0x80 + (c div 64) mod 64), of_nat (0x80 + c mod 64)]
      else Inl UnicodeEncodeError)"

fun utf8_encode :: "ustring \<Rightarrow> exn + byte list" where
  "utf8_encode [] = Inr []"
| "utf8_encode (c # cs) =
     (case utf8_char c of
        Inl e \<Rightarrow> Inl e
      | Inr bs \<Rightarrow> (case utf8_encode cs of Inl e \<Rightarrow> Inl e | Inr rest \<Rightarrow> Inr (bs @ rest)))"

text \<open>
  \<open>re.sub(C+, repl, s)\<close> for a character class \<open>C\<close>: scanning from the left, each
  maximal run of characters of the class is replaced by \<open>repl\<close>.
\<close>

function sub_runs :: "(nat \<Rightarrow> bool) \<Rightarrow> ustring \<Rightarrow> ustring \<Rightarrow> ustring" where
  "sub_runs C repl [] = []"
| "sub_runs C repl (c # cs) =
     (if C c then repl @ sub_runs C repl (dropWhile C cs) else c # sub_runs C repl cs)"
  by pat_completeness auto
termination
  by (relation "measure (\<lambda>(C, repl, s). length s)")
     (auto simp: length_dropWhile_le less_Suc_eq_le)

text \<open>\<open>s.strip(chars)\<close> for a class of characters.\<close>

definition strip_chars :: "(nat \<Rightarrow> bool) \<Rightarrow> ustring \<Rightarrow> ustring" where
  "strip_chars C s = rev (dropWhile C (rev (dropWhile C s)))"

text \<open>\<open>s.replace(old, new)\<close>: every non-overlapping occurrence, leftmost first.\<close>

fun replace_nonempty :: "ustring \<Rightarrow> ustring \<Rightarrow> ustring \<Rightarrow> ustring" where
  "replace_nonempty old new [] = []"
| "replace_nonempty old new (c # cs) =
     (if prefix old (c # cs) then new @ replace_nonempty old new (drop (length old - 1) cs)
      else c # replace_nonempty old new cs)"

definition str_replace :: "ustring \<Rightarrow> ustring \<Rightarrow> ustring \<Rightarrow> ustring" where
  "str_replace s old new =
     (if old = [] then new @ concat (map (\<lambda>c. c # new) s) else replace_nonempty old new s)"

text \<open>The characters \<open>str.strip()\<close> removes: those for which \<open>str.isspace\<close> holds.\<close>

definition is_space :: "nat \<Rightarrow> bool" where
  "is_space c =
     ((0x09 \<le> c \<and> c \<le> 0x0D) \<or> (0x1C \<le> c \<and> c \<le> 0x20) \<or> c = 0x85 \<or> c = 0xA0 \<or>
      c = 0x1680 \<or> (0x2000 \<le> c \<and> c \<le> 0x200A) \<or> c = 0x2028 \<or> c = 0x2029 \<or>
      c = 0x202F \<or> c = 0x205F \<or> c = 0x3000)"

section \<open>Helpers of the script\<close>

text \<open>
  The class \<open>\w\<close> of a \<open>str\<close> pattern: the underscore and every alphanumeric character.
  In the ASCII range these are the letters and the digits.
\<close>

definition is_word :: "pylib \<Rightarrow> nat \<Rightarrow> bool" where
  "is_word lib c =
     (if c < 128 then
        (48 \<le> c \<and> c \<le> 57) \<or> (65 \<le> c \<and> c \<le> 90) \<or> (97 \<le> c \<and> c \<le> 122) \<or> c = 95
      else unicode_isalnum lib c)"

text \<open>
  The three substitutions of \<open>to_public_id\<close>, one definition for each line. Its
  argument is a \<open>str\<close>, for which \<open>str(s or "")\<close> is \<open>s\<close> itself.
\<close>

definition strip_accents :: "ustring \<Rightarrow> ustring" where
  "strip_accents s = filter (\<lambda>c. \<not> (0x300 \<le> c \<and> c \<le> 0x36F)) s"

definition nonword_to_underscore :: "pylib \<Rightarrow> ustring \<Rightarrow> ustring" where
  "nonword_to_underscore lib s = sub_runs (\<lambda>c. \<not> (is_word lib c \<or> c = 45)) [95] s"

definition collapse_and_trim :: "ustring \<Rightarrow> ustring" where
  "collapse_and_trim s = strip_chars (\<lambda>c. c = 95) (sub_runs (\<lambda>c. c = 95) [95] s)"

definition to_public_id :: "pylib \<Rightarrow> ustring \<Rightarrow> ustring" where
  "to_public_id lib s =
     collapse_and_trim (nonword_to_underscore lib (strip_accents (normalize_nfkd lib s)))"

text \<open>\<open>k for k in sorted(params) if params[k] not in (None, "", False)\<close>; every
  \<open>k\<close> is a key of \<open>params\<close>, so the lookup succeeds.\<close>

definition signed_names :: "pydict \<Rightarrow> ustring list" where
  "signed_names params =
     filter (\<lambda>k. \<not> in_none_empty_false (the (map_of params k))) (sort (map fst params))"

text \<open>The string whose digest \<open>cld_signature\<close> returns.\<close>

definition to_sign :: "pylib \<Rightarrow> pydict \<Rightarrow> ustring \<Rightarrow> ustring" where
  "to_sign lib params api_secret =
     join (ustr ''&'')
       (map (\<lambda>k. k @ ustr ''='' @ py_str lib (the (map_of params k))) (signed_names params))
     @ api_secret"

definition cld_signature :: "pylib \<Rightarrow> pydict \<Rightarrow> ustring \<Rightarrow> exn + ustring" where
  "cld_signature lib params api_secret =
     (case utf8_encode (to_sign lib params api_secret) of
        Inl e \<Rightarrow> Inl e
      | Inr bs \<Rightarrow> Inr (sha1_hexdigest lib bs))"

text \<open>
  The URL is a \<open>str\<close>; where the uploader returns another JSON value, the caller
  passes its \<open>str()\<close>.
\<close>

definition cld_transform_url :: "ustring \<Rightarrow> ustring \<Rightarrow> ustring" where
  "cld_transform_url secure_url transform =
     str_replace secure_url (ustr ''/upload/'') (ustr ''/upload/'' @ transform @ ustr ''/'')"

text \<open>\<open>str(e)\<close> of an exception: the message it was raised with.\<close>

fun str_exn :: "pylib \<Rightarrow> exn \<Rightarrow> ustring" where
  "str_exn lib (RuntimeError m) = m"
| "str_exn lib (LibraryError m) = m"
| "str_exn lib e = str_builtin_exn lib e"

text \<open>A dict display \<open>{k1: v1, k2: v2, ...}\<close>: a later item overwrites an earlier key.\<close>

definition dict_literal :: "('k \<times> 'v) list \<Rightarrow> ('k \<times> 'v) list" where
  "dict_literal items = fold (\<lambda>(k, v). AList.update k v) items []"

text \<open>\<open>pd.isna\<close> on a scalar.\<close>

fun isna :: "pyval \<Rightarrow> bool" where
  "isna PNone = True"
| "isna (PFloat w) = float_is_nan w"
| "isna _ = False"

definition cell_str :: "pylib \<Rightarrow> pyval \<Rightarrow> ustring" where
  "cell_str lib val = (if isna val then [] else strip_chars is_space (py_str lib val))"

section \<open>Settings and the outside world\<close>

record config =
  cld_folder :: ustring
  use_image_alt_text_as_public_id :: bool
  throttle_sec :: "64 word"
  cld_delivery_transform :: ustring
  source_xlsx :: ustring
  source_sheet :: ustring
  dest_xlsx :: ustring
  cloud_name :: "ustring option"
  cloud_api_key :: "ustring option"
  cloud_api_secret :: "ustring option"

text \<open>
  The constants of the script; the three credentials are what \<open>os.getenv\<close> returned.
  \<open>0x3FD3333333333333\<close> is the float \<open>0.3\<close>.
\<close>

definition settings :: "ustring option \<Rightarrow> ustring option \<Rightarrow> ustring option \<Rightarrow> config" where
  "settings name key secret =
     \<lparr> cld_folder = ustr ''husq_parts'',
       use_image_alt_text_as_public_id = True,
       throttle_sec = 0x3FD3333333333333,
       cld_delivery_transform = ustr ''c_pad,w_800,h_800,b_white,f_auto,q_auto,dpr_auto'',
       source_xlsx = ustr ''source.xlsx'',
       source_sheet = ustr ''Sheet1'',
       dest_xlsx = ustr ''final_output.xlsx'',
       cloud_name = name,
       cloud_api_key = key,
       cloud_api_secret = secret \<rparr>"

record get_response =
  get_status_code :: int
  get_content_type :: "ustring option"
  get_content :: "byte list"

record post_response =
  post_status_code :: int
  post_text :: ustring
  post_json :: "exn + pydict"

text \<open>A data frame: the column names and, for each row, its cells in column order.\<close>

record table =
  tbl_columns :: "ustring list"
  tbl_rows :: "pyval list list"

text \<open>
  What the file system, the network and the clock answer. The number given to the
  network and to the clock is the index of the row being processed, so that each row
  may be answered differently.
\<close>

record world =
  read_excel :: "ustring \<Rightarrow> ustring \<Rightarrow> exn + table"
  http_get :: "nat \<Rightarrow> ustring \<Rightarrow> (ustring \<times> ustring) list \<Rightarrow> exn + get_response"
  http_post :: "nat \<Rightarrow> ustring \<Rightarrow> pydict \<Rightarrow> exn + post_response"
  now_timestamp :: "nat \<Rightarrow> int"
  to_excel :: "ustring \<Rightarrow> ustring list \<Rightarrow> ustring option list list \<Rightarrow> exn option"

text \<open>The effects of a run, in the order in which they happen.\<close>

datatype event =
    Print ustring
  | HttpGet ustring "(ustring \<times> ustring) list"
  | HttpPost ustring pydict
  | Sleep "64 word"
  | ToExcel ustring "ustring list" "ustring option list list"

section \<open>The uploader\<close>

definition sign_params :: "config \<Rightarrow> ustring \<Rightarrow> ustring \<Rightarrow> pydict" where
  "sign_params cfg ts public_id =
     (let params = [(ustr ''folder'', PStr (cld_folder cfg)),
                    (ustr ''overwrite'', PStr (ustr ''true'')),
                    (ustr ''unique_filename'', PStr (ustr ''false'')),
                    (ustr ''timestamp'', PStr ts)]
      in if public_id \<noteq> [] then AList.update (ustr ''public_id'') (PStr public_id) params
         else params)"

definition opt_val :: "ustring option \<Rightarrow> pyval" where
  "opt_val x = (case x of None \<Rightarrow> PNone | Some s \<Rightarrow> PStr s)"

definition upload_to_cloudinary ::
  "pylib \<Rightarrow> config \<Rightarrow> world \<Rightarrow> nat \<Rightarrow> ustring \<Rightarrow> ustring \<Rightarrow> ustring option \<Rightarrow> event list \<times> (exn + pyval)" where
  "upload_to_cloudinary lib cfg w n remote_url public_id referer =
     (let headers0 = [(ustr ''User-Agent'', ustr ''Mozilla/5.0''),
                      (ustr ''Accept'', ustr ''image/avif,image/webp,image/apng,image/*,*/*;q=0.8'')];
          headers = (case referer of
                       None \<Rightarrow> headers0
                     | Some r \<Rightarrow> if r \<noteq> [] then AList.update (ustr ''Referer'') r headers0 else headers0);
          fetch = HttpGet remote_url headers
      in case http_get w n remote_url headers of
           Inl e \<Rightarrow> ([fetch], Inl e)
         | Inr resp \<Rightarrow>
             if get_status_code resp \<noteq> 200 then
               ([fetch], Inl (RuntimeError (ustr ''Fetch failed ('' @ str_int (get_status_code resp) @
                                             ustr '') for URL: '' @ remote_url)))
             else
               let content_type = (case get_content_type resp of
                                     None \<Rightarrow> ustr ''image/png'' | Some t \<Rightarrow> t);
                   file_b64 = b64encode lib (get_content resp);
                   data_url = ustr ''data:'' @ content_type @ ustr '';base64,'' @ file_b64;
                   endpoint = ustr ''https://api.cloudinary.com/v1_1/'' @
                              py_str lib (opt_val (cloud_name cfg)) @ ustr ''/image/upload'';
                   ts = str_int (now_timestamp w n);
                   sp = sign_params cfg ts public_id
               in case cloud_api_secret cfg of
                    None \<Rightarrow> ([fetch], Inl TypeError)
                  | Some secret \<Rightarrow>
                     (case cld_signature lib sp secret of
                        Inl e \<Rightarrow> ([fetch], Inl e)
                      | Inr sig \<Rightarrow>
                          let payload = dict_literal ((ustr ''file'', PStr data_url) # sp @
                                          [(ustr ''api_key'', opt_val (cloud_api_key cfg)),
                                           (ustr ''signature'', PStr sig)]);
                              submit = HttpPost endpoint payload
                          in case http_post w n endpoint payload of
                               Inl e \<Rightarrow> ([fetch, submit], Inl e)
                             | Inr up \<Rightarrow>
                                 if post_status_code up \<noteq> 200 \<and> post_status_code up \<noteq> 201 then
                                   ([fetch, submit],
                                    Inl (RuntimeError (ustr ''Upload failed ('' @
                                           str_int (post_status_code up) @ ustr ''): '' @ post_text up)))
                                 else
                                   (case post_json up of
                                      Inl e \<Rightarrow> ([fetch, submit], Inl e)
                                    | Inr data \<Rightarrow>
                                        ([fetch, submit],
                                         Inr (case map_of data (ustr ''secure_url'') of
                                                None \<Rightarrow> PStr [] | Some v \<Rightarrow> v)))))"

section \<open>The row pipeline\<close>

record loop_state =
  out_rows :: "(ustring \<times> ustring) list list"
  attempted :: int
  processed :: int

text \<open>\<open>row.get(col)\<close>: the cell of the column, \<open>None\<close> when there is no such column.\<close>

definition row_get :: "ustring list \<Rightarrow> pyval list \<Rightarrow> ustring \<Rightarrow> pyval" where
  "row_get cols row col = (case map_of (zip cols row) col of None \<Rightarrow> PNone | Some v \<Rightarrow> v)"

text \<open>\<open>cell_str(row.get(col)) if col in df.columns else ""\<close>\<close>

definition optional_cell :: "pylib \<Rightarrow> ustring list \<Rightarrow> pyval list \<Rightarrow> ustring \<Rightarrow> ustring" where
  "optional_cell lib cols row col = (if col \<in> set cols then cell_str lib (row_get cols row col) else [])"

text \<open>The identifier of a row (lines 138 to 144 of the script).\<close>

definition row_public_id :: "pylib \<Rightarrow> config \<Rightarrow> ustring list \<Rightarrow> pyval list \<Rightarrow> ustring \<Rightarrow> ustring" where
  "row_public_id lib cfg cols row sku =
     (let alt_text = optional_cell lib cols row (ustr ''Image Alt Text'');
          product_name = optional_cell lib cols row (ustr ''Product Name'');
          alt_id = to_public_id lib alt_text;
          name_id = to_public_id lib product_name
      in if use_image_alt_text_as_public_id cfg \<and> alt_id \<noteq> [] then alt_id
         else if name_id \<noteq> [] then name_id else sku)"

definition process_row ::
  "pylib \<Rightarrow> config \<Rightarrow> world \<Rightarrow> ustring list \<Rightarrow> nat \<Rightarrow> pyval list \<Rightarrow> loop_state \<Rightarrow> event list \<times> loop_state" where
  "process_row lib cfg w source_cols idx row st =
     (let excel_row_num = int idx + 2;
          sku = cell_str lib (row_get source_cols row (ustr ''SKU''))
      in if sku = [] then
           ([Print (ustr ''[Row '' @ str_int excel_row_num @ ustr ''] Missing SKU '' @ [0x2013] @
                    ustr '' skipping'')], st)
         else
           let img_url = cell_str lib (row_get source_cols row (ustr ''Image''))
           in if img_url = [] then
                ([Print (ustr ''[Row '' @ str_int excel_row_num @ ustr ''] Empty Image cell for '' @ sku @
                         ustr '' '' @ [0x2013] @ ustr '' skipping'')], st)
              else
                let referer = optional_cell lib source_cols row (ustr ''Starting Url'');
                    public_id = row_public_id lib cfg source_cols row sku;
                    st1 = st\<lparr>attempted := attempted st + 1\<rparr>
                in case upload_to_cloudinary lib cfg w idx img_url public_id
                          (if referer \<noteq> [] then Some referer else None) of
                     (evs, Inr base_url) \<Rightarrow>
                       let final_url = cld_transform_url (py_str lib base_url) (cld_delivery_transform cfg);
                           out_row = dict_literal
                                       (map (\<lambda>col. (col, cell_str lib (row_get source_cols row col))) source_cols);
                           out_row = AList.update (ustr ''Variant SKU'') sku out_row;
                           out_row = AList.update (ustr ''Image Src'') final_url out_row
                       in (evs @ [Print ([0x2705] @ ustr '' Row '' @ str_int excel_row_num @ ustr '' '' @ sku @
                                         ustr '' '' @ [0x2192] @ ustr '' '' @ final_url),
                                  Sleep (throttle_sec cfg)],
                           st1\<lparr>out_rows := out_rows st1 @ [out_row], processed := processed st1 + 1\<rparr>)
                   | (evs, Inl e) \<Rightarrow>
                       (evs @ [Print ([0x274C] @ ustr '' Row '' @ str_int excel_row_num @ ustr '' '' @ sku @
                                      ustr '': '' @ str_exn lib e),
                               Sleep (throttle_sec cfg)],
                        st1))"

text \<open>The loop over \<open>df.iterrows()\<close>, each row with its index.\<close>

fun run_rows ::
  "pylib \<Rightarrow> config \<Rightarrow> world \<Rightarrow> ustring list \<Rightarrow> (nat \<times> pyval list) list \<Rightarrow> loop_state \<Rightarrow> event list \<times> loop_state" where
  "run_rows lib cfg w source_cols [] st = ([], st)"
| "run_rows lib cfg w source_cols ((idx, row) # rest) st =
     (case process_row lib cfg w source_cols idx row st of
        (evs, st1) \<Rightarrow>
          (case run_rows lib cfg w source_cols rest st1 of
             (evs', st2) \<Rightarrow> (evs @ evs', st2)))"

section \<open>The script\<close>

datatype outcome = Aborted | Finished loop_state | Crashed exn loop_state

definition truthy :: "ustring option \<Rightarrow> bool" where
  "truthy x = (x \<noteq> None \<and> x \<noteq> Some [])"

definition main :: "pylib \<Rightarrow> config \<Rightarrow> world \<Rightarrow> event list \<times> outcome" where
  "main lib cfg w =
     (if \<not> (truthy (cloud_name cfg) \<and> truthy (cloud_api_key cfg) \<and> truthy (cloud_api_secret cfg)) then
        ([Print (ustr ''ERROR: Missing CLOUD_NAME / CLOUD_API_KEY / CLOUD_API_SECRET env vars.'')], Aborted)
      else
        case read_excel w (source_xlsx cfg) (source_sheet cfg) of
          Inl e \<Rightarrow>
            ([Print (ustr ''ERROR reading '' @ source_xlsx cfg @ ustr '': '' @ str_exn lib e)], Aborted)
        | Inr df \<Rightarrow>
            (case filter (\<lambda>col. col \<notin> set (tbl_columns df)) [ustr ''SKU'', ustr ''Image''] of
               col # _ \<Rightarrow>
                 ([Print (ustr ''ERROR: source file must contain column: '' @ [39] @ col @ [39])], Aborted)
             | [] \<Rightarrow>
                 let source_cols = tbl_columns df;
                     st0 = \<lparr>out_rows = [], attempted = 0, processed = 0\<rparr>
                 in case run_rows lib cfg w source_cols
                           (zip [0..<length (tbl_rows df)] (tbl_rows df)) st0 of
                      (evs, st) \<Rightarrow>
                        if out_rows st \<noteq> [] then
                          let extra_cols = [ustr ''Variant SKU'', ustr ''Image Src''];
                              all_cols = fold (\<lambda>col acc. if col \<notin> set acc then acc @ [col] else acc)
                                           extra_cols source_cols;
                              out_df = map (\<lambda>r. map (map_of r) all_cols) (out_rows st);
                              written = ToExcel (dest_xlsx cfg) all_cols out_df
                          in case to_excel w (dest_xlsx cfg) all_cols out_df of
                               Some e \<Rightarrow> (evs @ [written], Crashed e st)
                             | None \<Rightarrow>
                                 (evs @ [written,
                                         Print ([10] @ ustr ''Done. Attempted: '' @ str_int (attempted st) @
                                                ustr '', Processed: '' @ str_int (processed st)),
                                         Print (ustr ''Output written to: '' @ dest_xlsx cfg)],
                                  Finished st)
                        else
                          (evs @ [Print (ustr ''No rows processed; nothing to write.'')], Finished st)))"

section \<open>Notions of the specification\<close>

text \<open>A row passes validation when its SKU and its Image are not empty.\<close>

definition row_valid :: "pylib \<Rightarrow> ustring list \<Rightarrow> pyval list \<Rightarrow> bool" where
  "row_valid lib cols row =
     (cell_str lib (row_get cols row (ustr ''SKU'')) \<noteq> [] \<and>
      cell_str lib (row_get cols row (ustr ''Image'')) \<noteq> [])"

fun is_sleep :: "event \<Rightarrow> bool" where
  "is_sleep (Sleep t) = True"
| "is_sleep _ = False"

fun is_to_excel :: "event \<Rightarrow> bool" where
  "is_to_excel (ToExcel path cols data) = True"
| "is_to_excel _ = False"

fun is_http :: "event \<Rightarrow> bool" where
  "is_http (HttpGet url headers) = True"
| "is_http (HttpPost url payload) = True"
| "is_http _ = False"

text \<open>An upload request carries the identifier \<open>pid\<close> as its \<open>public_id\<close>.\<close>

fun post_carries :: "ustring \<Rightarrow> event \<Rightarrow> bool" where
  "post_carries pid (HttpPost ep payload) = (map_of payload (ustr ''public_id'') = Some (PStr pid))"
| "post_carries pid _ = True"

text \<open>
  An upload request is signed for the identifier \<open>pid\<close> at the time stamp \<open>ts\<close>:
  its \<open>signature\<close> is the SHA-1 digest of the UTF-8 bytes of the string built from
  the parameters with that identifier and the configured secret.
\<close>

fun post_signed :: "pylib \<Rightarrow> config \<Rightarrow> ustring \<Rightarrow> ustring \<Rightarrow> event \<Rightarrow> bool" where
  "post_signed lib cfg ts pid (HttpPost ep payload) =
     (case cloud_api_secret cfg of
        None \<Rightarrow> False
      | Some secret \<Rightarrow>
          (case utf8_encode (to_sign lib (sign_params cfg ts pid) secret) of
             Inl e \<Rightarrow> False
           | Inr bs \<Rightarrow> map_of payload (ustr ''signature'') = Some (PStr (sha1_hexdigest lib bs))))"
| "post_signed lib cfg ts pid _ = True"

text \<open>
  The points inside one iteration of the loop: the values of the three loop variables
  after each statement that assigns to one of them, in order. These are line 146
  (\<open>attempted += 1\<close>) and, when the upload returns, line 158 (\<open>out_rows.append\<close>)
  and line 159 (\<open>processed += 1\<close>). A skipped row assigns to none of them.
\<close>

definition row_points ::
  "pylib \<Rightarrow> config \<Rightarrow> world \<Rightarrow> ustring list \<Rightarrow> nat \<Rightarrow> pyval list \<Rightarrow> loop_state \<Rightarrow> loop_state list" where
  "row_points lib cfg w source_cols idx row st =
     (let sku = cell_str lib (row_get source_cols row (ustr ''SKU''))
      in if sku = [] then []
         else
           let img_url = cell_str lib (row_get source_cols row (ustr ''Image''))
           in if img_url = [] then []
              else
                let referer = optional_cell lib source_cols row (ustr ''Starting Url'');
                    public_id = row_public_id lib cfg source_cols row sku;
                    st1 = st\<lparr>attempted := attempted st + 1\<rparr>
                in case upload_to_cloudinary lib cfg w idx img_url public_id
                          (if referer \<noteq> [] then Some referer else None) of
                     (evs, Inr base_url) \<Rightarrow>
                       let final_url = cld_transform_url (py_str lib base_url) (cld_delivery_transform cfg);
                           out_row = dict_literal
                                       (map (\<lambda>col. (col, cell_str lib (row_get source_cols row col))) source_cols);
                           out_row = AList.update (ustr ''Variant SKU'') sku out_row;
                           out_row = AList.update (ustr ''Image Src'') final_url out_row;
                           st2 = st1\<lparr>out_rows := out_rows st1 @ [out_row]\<rparr>;
                           st3 = st2\<lparr>processed := processed st2 + 1\<rparr>
                       in [st1, st2, st3]
                   | (evs, Inl e) \<Rightarrow> [st1])"

text \<open>The points of a whole run, row after row.\<close>

fun run_points ::
  "pylib \<Rightarrow> config \<Rightarrow> world \<Rightarrow> ustring list \<Rightarrow> (nat \<times> pyval list) list \<Rightarrow> loop_state \<Rightarrow> loop_state list" where
  "run_points lib cfg w source_cols [] st = []"
| "run_points lib cfg w source_cols ((idx, row) # rest) st =
     row_points lib cfg w source_cols idx row st @
     run_points lib cfg w source_cols rest (snd (process_row lib cfg w source_cols idx row st))"

text \<open>
  A world for evaluating a run on a concrete table: every download answers with the
  given status, every upload is accepted and answers with the given JSON object.
\<close>

definition sample_world :: "table \<Rightarrow> int \<Rightarrow> pydict \<Rightarrow> world" where
  "sample_world df status answer =
     \<lparr> read_excel = (\<lambda>path sheet. Inr df),
       http_get = (\<lambda>n url headers.
          Inr \<lparr> get_status_code = status, get_content_type = None, get_content = [] \<rparr>),
       http_post = (\<lambda>n url payload.
          Inr \<lparr> post_status_code = 200, post_text = [], post_json = Inr answer \<rparr>),
       now_timestamp = (\<lambda>n. 1700000000),
       to_excel = (\<lambda>path cols data. None) \<rparr>"

text \<open>
  A library for evaluating the helpers on concrete inputs. Its entries agree with Python
  on the inputs used below: NFKD leaves ASCII text and the letter U+00DF unchanged,
  U+00DF (LATIN SMALL LETTER SHARP S) is alphanumeric, the three digests are the SHA-1
  digests of the ASCII strings they are given for, and the base64 encoding of no bytes is
  the empty string.
\<close>

definition sample_lib :: pylib where
  "sample_lib =
     \<lparr> repr_float = (\<lambda>w. []),
       normalize_nfkd = (\<lambda>s. s),
       unicode_isalnum = (\<lambda>c. c = 0xDF),
       sha1_hexdigest = (\<lambda>bs.
          if bs = map of_nat (ustr ''folder=fs'')
            then ustr ''0712d43f3cd1750e1f0850faf70c73d2a936ea75''
          else if bs = map of_nat (ustr ''folder=f&timestamp=0s'')
            then ustr ''2faeef02d137108aa85a5972d9be4f9c234ec12b''
          else if bs = map of_nat (ustr (''folder=husq_parts&overwrite=true&public_id=ABC1'' @
                                         ''&timestamp=1700000000&unique_filename=falsesecret''))
            then ustr ''fc0496abcd948ffeff9bdfb6f79779fdbe574301''
          else []),
       b64encode = (\<lambda>bs. []),
       str_builtin_exn = (\<lambda>e. []) \<rparr>"

text \<open>The character set \<open>[A-Za-z0-9_-]\<close> of the specification.\<close>

definition in_id_charset :: "nat \<Rightarrow> bool" where
  "in_id_charset c =
     ((65 \<le> c \<and> c \<le> 90) \<or> (97 \<le> c \<and> c \<le> 122) \<or> (48 \<le> c \<and> c \<le> 57) \<or> c = 95 \<or> c = 45)"

text \<open>
  The string to sign as the specification words it: drop the parameters whose value is
  to be dropped, sort the remaining names, write \<open>key=value\<close> pairs joined by
  \<open>&\<close>, append the secret. The first argument says which values are dropped.
\<close>

definition spec_to_sign :: "(pyval \<Rightarrow> bool) \<Rightarrow> pylib \<Rightarrow> pydict \<Rightarrow> ustring \<Rightarrow> ustring" where
  "spec_to_sign dropped lib params api_secret =
     (let remaining = filter (\<lambda>(k, v). \<not> dropped v) params;
          names = sort (map fst remaining)
      in join (ustr ''&'') (map (\<lambda>k. k @ ustr ''='' @ py_str lib (the (map_of remaining k))) names)
         @ api_secret)"

text \<open>Empty, null or boolean false.\<close>

definition empty_null_false :: "pyval \<Rightarrow> bool" where
  "empty_null_false v = (v = PStr [] \<or> v = PNone \<or> v = PBool False)"

text \<open>The number zero: the integer \<open>0\<close> or a float \<open>0.0\<close> or \<open>-0.0\<close>.\<close>

fun zero_number :: "pyval \<Rightarrow> bool" where
  "zero_number (PInt i) = (i = 0)"
| "zero_number (PFloat w) = float_is_zero w"
| "zero_number _ = False"

text \<open>Concrete inputs: credentials, a table with the two required columns, two rows.\<close>

definition sample_cfg :: config where
  "sample_cfg = settings (Some (ustr ''demo'')) (Some (ustr ''key'')) (Some (ustr ''secret''))"

definition sample_cols :: "ustring list" where
  "sample_cols = [ustr ''SKU'', ustr ''Image'']"

definition sample_table :: "pyval list list \<Rightarrow> table" where
  "sample_table rows = \<lparr> tbl_columns = sample_cols, tbl_rows = rows \<rparr>"

definition row_abc1 :: "pyval list" where
  "row_abc1 = [PStr (ustr ''ABC1''), PStr (ustr ''http://x/a.png'')]"

definition row_no_sku :: "pyval list" where
  "row_no_sku = [PNone, PStr (ustr ''http://x/a.png'')]"

definition alt_cols :: "ustring list" where
  "alt_cols = [ustr ''SKU'', ustr ''Image'', ustr ''Image Alt Text'']"

definition row_widget :: "pyval list" where
  "row_widget = [PStr (ustr ''ABC1''), PStr (ustr ''http://x/a.png''), PStr (ustr ''Red Widget!'')]"

definition sample_answer :: pydict where
  "sample_answer = [(ustr ''secure_url'', PStr (ustr ''https://h/image/upload/v1/a.png''))]"

definition initial_state :: loop_state where
  "initial_state = \<lparr> out_rows = [], attempted = 0, processed = 0 \<rparr>"

text \<open>The identifier as the specification words it.\<close>

definition spec_identifier :: "bool \<Rightarrow> ustring \<Rightarrow> ustring \<Rightarrow> ustring \<Rightarrow> ustring" where
  "spec_identifier flag alt_id name_id sku =
     (if flag \<and> alt_id \<noteq> [] then alt_id else if name_id \<noteq> [] then name_id else sku)"

section \<open>Properties\<close>

lemma set_sub_runs: "set (sub_runs C repl s) \<subseteq> set repl \<union> {c \<in> set s. \<not> C c}"
proof (induction C repl s rule: sub_runs.induct)
  case (1 C repl)
  show ?case by simp
next
  case (2 C repl c cs)
  show ?case
  proof (cases "C c")
    case True
    with 2 have "set (sub_runs C repl (dropWhile C cs)) \<subseteq> set repl \<union> {c \<in> set (dropWhile C cs). \<not> C c}"
      by simp
    moreover have "set (dropWhile C cs) \<subseteq> set cs"
      by (auto dest: set_dropWhileD)
    ultimately show ?thesis using True by auto
  next
    case False
    with 2 show ?thesis by auto
  qed
qed

lemma set_strip_chars: "set (strip_chars C s) \<subseteq> set s"
  by (auto simp: strip_chars_def dest!: set_dropWhileD)

lemma sub_runs_run:
  assumes "run \<noteq> []" "\<forall>c\<in>set run. C c" "post = [] \<or> \<not> C (hd post)"
  shows "sub_runs C repl (run @ post) = repl @ sub_runs C repl post"
proof -
  obtain c cs where run: "run = c # cs" using assms(1) by (cases run) auto
  have "dropWhile C (cs @ post) = dropWhile C post"
    using assms(2) run by (simp add: dropWhile_append)
  also have "\<dots> = post" using assms(3) by (cases post) auto
  finally show ?thesis using assms(2) run by simp
qed

lemma sub_runs_append:
  "pre = [] \<or> \<not> C (last pre) \<Longrightarrow> sub_runs C repl (pre @ rest) = sub_runs C repl pre @ sub_runs C repl rest"
proof (induction C repl pre rule: sub_runs.induct)
  case (1 C repl)
  show ?case by simp
next
  case (2 C repl c cs)
  show ?case
  proof (cases "C c")
    case True
    with 2(3) have ne: "cs \<noteq> []" and l: "\<not> C (last cs)" by (auto split: if_splits)
    then have ex: "\<exists>x\<in>set cs. \<not> C x" using last_in_set by blast
    then have d: "dropWhile C (cs @ rest) = dropWhile C cs @ rest" by (auto simp: dropWhile_append)
    have dne: "dropWhile C cs \<noteq> []" using ex by simp
    have "last (dropWhile C cs) = last cs"
      by (metis dne takeWhile_dropWhile_id last_appendR)
    with l dne 2(1)[OF True] have "sub_runs C repl (dropWhile C cs @ rest) = sub_runs C repl (dropWhile C cs) @ sub_runs C repl rest"
      by simp
    with True d show ?thesis by simp
  next
    case False
    show ?thesis
    proof (cases "cs = []")
      case True
      with False show ?thesis by simp
    next
      case ne: False
      with 2(3) have "\<not> C (last cs)" by simp
      with 2(2)[OF False] False show ?thesis by simp
    qed
  qed
qed

lemma prefix_imp_sublist_app: "prefix old (x @ y) \<Longrightarrow> length old \<le> length x \<Longrightarrow> sublist old x"
  by (metis prefix_imp_sublist prefix_length_prefix append_prefixD prefixI prefix_order.order_refl)

lemma replace_nonempty_absent:
  "old \<noteq> [] \<Longrightarrow> \<not> sublist old s \<Longrightarrow> replace_nonempty old new s = s"
  by (induction s) (auto simp: sublist_Cons_right)

lemma replace_nonempty_first:
  assumes "old \<noteq> []" "\<not> sublist old (pre @ butlast old)"
  shows "replace_nonempty old new (pre @ old @ post) = pre @ new @ replace_nonempty old new post"
  using assms(2)
proof (induction pre)
  case Nil
  obtain c cs where old: "old = c # cs" using assms(1) by (cases old) auto
  then show ?case by simp
next
  case (Cons p pre)
  have np: "\<not> prefix old (p # pre @ old @ post)"
  proof
    assume pr: "prefix old (p # pre @ old @ post)"
    have "p # pre @ old @ post = ((p # pre) @ butlast old) @ ([last old] @ post)"
      using assms(1) by simp
    with pr have "prefix old (((p # pre) @ butlast old) @ ([last old] @ post))" by simp
    moreover have "length old \<le> length ((p # pre) @ butlast old)" by simp
    ultimately have "sublist old ((p # pre) @ butlast old)" by (rule prefix_imp_sublist_app)
    with Cons.prems show False by simp
  qed
  have "\<not> sublist old (pre @ butlast old)"
    using Cons.prems by (simp add: sublist_Cons_right)
  with Cons.IH np show ?case by simp
qed

lemma to_public_id_set:
  "c \<in> set (to_public_id lib s) \<Longrightarrow> in_id_charset c \<or> (128 \<le> c \<and> unicode_isalnum lib c)"
proof -
  assume a: "c \<in> set (to_public_id lib s)"
  let ?s2 = "strip_accents (normalize_nfkd lib s)"
  let ?s3 = "nonword_to_underscore lib ?s2"
  from a have "c \<in> set (sub_runs (\<lambda>c. c = 95) [95] ?s3)"
    using set_strip_chars by (fastforce simp: to_public_id_def collapse_and_trim_def)
  then have "c = 95 \<or> c \<in> set ?s3" using set_sub_runs by fastforce
  then have "c = 95 \<or> is_word lib c \<or> c = 45"
    using set_sub_runs[of "\<lambda>c. \<not> (is_word lib c \<or> c = 45)" "[95]" ?s2]
    by (auto simp: nonword_to_underscore_def)
  then show ?thesis by (auto simp: is_word_def in_id_charset_def split: if_splits)
qed

text \<open>
  Claim C2, as amended. Every character of the sanitizer's output is in
  \<open>[A-Za-z0-9_-]\<close> or is a non-ASCII alphanumeric character (a Unicode word
  character); and the substitution step replaces every maximal run of characters that
  are neither word characters nor \<open>-\<close> by a single underscore, the text before and
  after the run being substituted independently.
\<close>

theorem to_public_id_charset:
  "(\<forall>c\<in>set (to_public_id lib s). in_id_charset c \<or> (128 \<le> c \<and> unicode_isalnum lib c)) \<and>
   (run \<noteq> [] \<and> (\<forall>c\<in>set run. \<not> (is_word lib c \<or> c = 45)) \<and>
    (pre = [] \<or> is_word lib (last pre) \<or> last pre = 45) \<and>
    (post = [] \<or> is_word lib (hd post) \<or> hd post = 45) \<longrightarrow>
      nonword_to_underscore lib (pre @ run @ post) =
        nonword_to_underscore lib pre @ [95] @ nonword_to_underscore lib post)"
proof (intro conjI impI ballI)
  fix c assume "c \<in> set (to_public_id lib s)"
  then show "in_id_charset c \<or> (128 \<le> c \<and> unicode_isalnum lib c)" by (rule to_public_id_set)
next
  assume h: "run \<noteq> [] \<and> (\<forall>c\<in>set run. \<not> (is_word lib c \<or> c = 45)) \<and>
    (pre = [] \<or> is_word lib (last pre) \<or> last pre = 45) \<and>
    (post = [] \<or> is_word lib (hd post) \<or> hd post = 45)"
  let ?C = "\<lambda>c. \<not> (is_word lib c \<or> c = 45)"
  have "sub_runs ?C [95] (pre @ (run @ post)) = sub_runs ?C [95] pre @ sub_runs ?C [95] (run @ post)"
    using h by (intro sub_runs_append) auto
  also have "sub_runs ?C [95] (run @ post) = [95] @ sub_runs ?C [95] post"
    using h by (intro sub_runs_run) auto
  finally show "nonword_to_underscore lib (pre @ run @ post) =
        nonword_to_underscore lib pre @ [95] @ nonword_to_underscore lib post"
    by (simp add: nonword_to_underscore_def)
qed

text \<open>
  Claim C2 as stated fails on non-ASCII text: the letter U+00DF of \<open>Strasse\<close>
  (code point 223) is kept in the output and is outside \<open>[A-Za-z0-9_-]\<close>.
\<close>

theorem to_public_id_non_ascii_counterexample:
  "223 \<in> set (to_public_id sample_lib (ustr ''Stra'' @ [223] @ ustr ''e'')) \<and> \<not> in_id_charset 223"
  by (simp add: to_public_id_def collapse_and_trim_def nonword_to_underscore_def strip_accents_def
      strip_chars_def is_word_def sample_lib_def ustr_def in_id_charset_def)

text \<open>
  The theorem at \<open>Red Widget!\<close> and at the run \<open> ! \<close> between \<open>Red\<close> and
  \<open>Widget\<close>.
\<close>

theorem to_public_id_charset_witness:
  "to_public_id sample_lib (ustr ''Red Widget!'') = ustr ''Red_Widget'' \<and>
   (in_id_charset 82 \<or> (128 \<le> (82::nat) \<and> unicode_isalnum sample_lib 82)) \<and>
   nonword_to_underscore sample_lib (ustr ''Red'' @ ustr '' ! '' @ ustr ''Widget'') =
     nonword_to_underscore sample_lib (ustr ''Red'') @ [95] @
     nonword_to_underscore sample_lib (ustr ''Widget'') \<and>
   nonword_to_underscore sample_lib (ustr ''Red'' @ ustr '' ! '' @ ustr ''Widget'') = ustr ''Red_Widget''"
proof -
  note t = to_public_id_charset [of sample_lib "ustr ''Red Widget!''" "ustr '' ! ''" "ustr ''Red''" "ustr ''Widget''"]
  have h: "ustr '' ! '' \<noteq> [] \<and> (\<forall>c\<in>set (ustr '' ! ''). \<not> (is_word sample_lib c \<or> c = 45)) \<and>
    (ustr ''Red'' = [] \<or> is_word sample_lib (last (ustr ''Red'')) \<or> last (ustr ''Red'') = 45) \<and>
    (ustr ''Widget'' = [] \<or> is_word sample_lib (hd (ustr ''Widget'')) \<or> hd (ustr ''Widget'') = 45)"
    by (simp add: is_word_def ustr_def)
  have e1: "to_public_id sample_lib (ustr ''Red Widget!'') = ustr ''Red_Widget''"
    by (simp add: to_public_id_def collapse_and_trim_def nonword_to_underscore_def
        strip_accents_def strip_chars_def is_word_def sample_lib_def ustr_def)
  have m: "82 \<in> set (to_public_id sample_lib (ustr ''Red Widget!''))"
    unfolding e1 by (simp add: ustr_def)
  have e2: "nonword_to_underscore sample_lib (ustr ''Red'' @ ustr '' ! '' @ ustr ''Widget'') = ustr ''Red_Widget''"
    by (simp add: nonword_to_underscore_def is_word_def ustr_def)
  from t h e1 e2 m show ?thesis by blast
qed

lemma in_none_empty_false_iff: "in_none_empty_false v \<longleftrightarrow> empty_null_false v \<or> zero_number v"
  by (cases v) (auto simp: empty_null_false_def)

lemma map_of_filter_distinct:
  "distinct (map fst ps) \<Longrightarrow> (k, v) \<in> set ps \<Longrightarrow> P (k, v) \<Longrightarrow> map_of (filter P ps) k = Some v"
  by (intro map_of_is_SomeI) (auto simp: distinct_map_filter)

lemma to_sign_spec:
  assumes d: "distinct (map fst params)"
  shows "to_sign lib params api_secret = spec_to_sign in_none_empty_false lib params api_secret"
proof -
  let ?keep = "\<lambda>v. \<not> in_none_empty_false v"
  let ?rem = "filter (\<lambda>(k, v). ?keep v) params"
  have look: "map_of params k = Some v" if "(k, v) \<in> set params" for k v
    using d that by simp
  have f1: "filter (\<lambda>k. ?keep (the (map_of params k))) (map fst params) = map fst ?rem"
    unfolding filter_map by (rule arg_cong[where f="map fst"], rule filter_cong) (auto simp: look)
  have names: "filter (\<lambda>k. ?keep (the (map_of params k))) (sort (map fst params)) = sort (map fst ?rem)"
    by (simp add: filter_sort f1)
  have vals: "map_of ?rem k = map_of params k" if "k \<in> set (sort (map fst ?rem))" for k
  proof -
    from that obtain v where kv: "(k, v) \<in> set params" "?keep v" by auto
    then have "map_of ?rem k = Some v"
      using map_of_filter_distinct[OF d, of k v "\<lambda>(k, v). ?keep v"] by simp
    with kv look show ?thesis by simp
  qed
  show ?thesis
    unfolding to_sign_def signed_names_def spec_to_sign_def Let_def names
    by (rule arg_cong[where f="\<lambda>x. join (ustr ''&'') x @ api_secret"], rule map_cong) (auto simp: vals)
qed




lemma kept_update:
  "map_of ps k = Some u \<Longrightarrow> in_none_empty_false u \<Longrightarrow> in_none_empty_false v \<Longrightarrow>
   filter (\<lambda>(k, v). \<not> in_none_empty_false v) (AList.update k v ps) =
   filter (\<lambda>(k, v). \<not> in_none_empty_false v) ps"
  by (induction ps) (auto split: if_splits)

lemma kept_delete:
  assumes "distinct (map fst ps)" "map_of ps k = Some u" "in_none_empty_false u"
  shows "filter (\<lambda>(k, v). \<not> in_none_empty_false v) (AList.delete k ps) =
         filter (\<lambda>(k, v). \<not> in_none_empty_false v) ps"
proof -
  have "(k', v') \<in> set ps \<Longrightarrow> \<not> in_none_empty_false v' \<Longrightarrow> k' \<noteq> k" for k' v'
    using assms by (metis map_of_is_SomeI option.inject)
  then show ?thesis
    unfolding AList.delete_eq filter_filter by (intro filter_cong) auto
qed

text \<open>
  Claim C8. A parameter whose value is the number zero (the integer 0, or a float 0.0
  or -0.0) is excluded from the string being signed exactly as if its value were boolean
  false: the signed string, and so the signature, is the same as with \<open>False\<close> in
  its place and the same as without the parameter.
\<close>

theorem cld_signature_zero_excluded:
  assumes d: "distinct (map fst params)" and m: "map_of params k = Some v" and z: "zero_number v"
  shows "to_sign lib params api_secret = to_sign lib (AList.update k (PBool False) params) api_secret \<and>
         to_sign lib params api_secret = to_sign lib (AList.delete k params) api_secret \<and>
         cld_signature lib params api_secret = cld_signature lib (AList.update k (PBool False) params) api_secret \<and>
         cld_signature lib params api_secret = cld_signature lib (AList.delete k params) api_secret"
proof -
  have dv: "in_none_empty_false v" using z by (simp add: in_none_empty_false_iff)
  have u: "to_sign lib (AList.update k (PBool False) params) api_secret = to_sign lib params api_secret"
    using d m dv
    by (simp add: to_sign_spec distinct_update spec_to_sign_def kept_update [of params k v])
  have e: "to_sign lib (AList.delete k params) api_secret = to_sign lib params api_secret"
    using d m dv
    by (simp add: to_sign_spec distinct_delete spec_to_sign_def kept_delete [of params k v])
  show ?thesis using u e by (simp add: cld_signature_def)
qed

text \<open>
  The theorem at \<open>{"folder": "f", "timestamp": 0}\<close>.
\<close>

theorem cld_signature_zero_excluded_witness:
  "distinct (map fst [(ustr ''folder'', PStr (ustr ''f'')), (ustr ''timestamp'', PInt 0)]) \<and>
   map_of [(ustr ''folder'', PStr (ustr ''f'')), (ustr ''timestamp'', PInt 0)] (ustr ''timestamp'') = Some (PInt 0) \<and>
   zero_number (PInt 0) \<and>
   to_sign sample_lib [(ustr ''folder'', PStr (ustr ''f'')), (ustr ''timestamp'', PInt 0)] (ustr ''s'') =
   to_sign sample_lib [(ustr ''folder'', PStr (ustr ''f'')), (ustr ''timestamp'', PBool False)] (ustr ''s'') \<and>
   to_sign sample_lib [(ustr ''folder'', PStr (ustr ''f'')), (ustr ''timestamp'', PInt 0)] (ustr ''s'') =
   to_sign sample_lib [(ustr ''folder'', PStr (ustr ''f''))] (ustr ''s'')"
proof -
  have d: "distinct (map fst [(ustr ''folder'', PStr (ustr ''f'')), (ustr ''timestamp'', PInt 0)])"
    by (simp add: ustr_def)
  have m: "map_of [(ustr ''folder'', PStr (ustr ''f'')), (ustr ''timestamp'', PInt 0)] (ustr ''timestamp'') = Some (PInt 0)"
    by (simp add: ustr_def)
  have z: "zero_number (PInt 0)" by simp
  have u: "AList.update (ustr ''timestamp'') (PBool False) [(ustr ''folder'', PStr (ustr ''f'')), (ustr ''timestamp'', PInt 0)]
     = [(ustr ''folder'', PStr (ustr ''f'')), (ustr ''timestamp'', PBool False)]"
    by (simp add: ustr_def)
  have e: "AList.delete (ustr ''timestamp'') [(ustr ''folder'', PStr (ustr ''f'')), (ustr ''timestamp'', PInt 0)]
     = [(ustr ''folder'', PStr (ustr ''f''))]"
    by (simp add: ustr_def)
  from cld_signature_zero_excluded [OF d m z, of sample_lib "ustr ''s''"] d m z show ?thesis
    unfolding u e by blast
qed

text \<open>
  Claim C3, as amended. A URL without the marker \<open>/upload/\<close> is returned unchanged.
  In a URL with the marker, the descriptor is inserted as a path segment after the
  leftmost occurrence, and the text after that occurrence is transformed in the same
  way, so that every non-overlapping occurrence receives the descriptor; when the marker
  occurs once, the descriptor is inserted after it and nowhere else, whatever the
  descriptor contains.
\<close>

theorem cld_transform_url_insert:
  "(\<not> sublist (ustr ''/upload/'') url \<longrightarrow> cld_transform_url url t = url) \<and>
   (\<not> sublist (ustr ''/upload/'') (pre @ ustr ''/upload'') \<longrightarrow>
      cld_transform_url (pre @ ustr ''/upload/'' @ post) t =
        pre @ ustr ''/upload/'' @ t @ ustr ''/'' @ cld_transform_url post t) \<and>
   (\<not> sublist (ustr ''/upload/'') (pre @ ustr ''/upload'') \<and> \<not> sublist (ustr ''/upload/'') post \<longrightarrow>
      cld_transform_url (pre @ ustr ''/upload/'' @ post) t =
        pre @ ustr ''/upload/'' @ t @ ustr ''/'' @ post)"
proof -
  have ne: "ustr ''/upload/'' \<noteq> []" by (simp add: ustr_def)
  have bl: "butlast (ustr ''/upload/'') = ustr ''/upload''" by (simp add: ustr_def)
  have a: "cld_transform_url u t = u" if "\<not> sublist (ustr ''/upload/'') u" for u
    using that ne by (simp add: cld_transform_url_def str_replace_def replace_nonempty_absent)
  have b: "cld_transform_url (pre @ ustr ''/upload/'' @ post) t =
        pre @ ustr ''/upload/'' @ t @ ustr ''/'' @ cld_transform_url post t"
    if "\<not> sublist (ustr ''/upload/'') (pre @ ustr ''/upload'')"
    using that ne replace_nonempty_first[of "ustr ''/upload/''" pre "ustr ''/upload/'' @ t @ ustr ''/''" post]
    by (simp add: cld_transform_url_def str_replace_def bl)
  show ?thesis using a b by simp
qed

text \<open>
  Claim C3 as stated fails for a URL with two markers: the descriptor is inserted after
  both, so the result is neither of the two URLs with a single insertion.
\<close>

theorem cld_transform_url_two_markers_counterexample:
  "cld_transform_url (ustr ''https://h/image/upload/v1/upload/a.png'') (ustr ''w_8'')
     = ustr ''https://h/image/upload/w_8/v1/upload/w_8/a.png'' \<and>
   cld_transform_url (ustr ''https://h/image/upload/v1/upload/a.png'') (ustr ''w_8'')
     \<noteq> ustr ''https://h/image/upload/w_8/v1/upload/a.png'' \<and>
   cld_transform_url (ustr ''https://h/image/upload/v1/upload/a.png'') (ustr ''w_8'')
     \<noteq> ustr ''https://h/image/upload/v1/upload/w_8/a.png''"
  by (simp add: cld_transform_url_def str_replace_def ustr_def)

text \<open>
  The theorem at a URL without the marker and at a URL with one marker, with a
  descriptor that itself contains \<open>/upload/\<close>.
\<close>

theorem cld_transform_url_insert_witness:
  "\<not> sublist (ustr ''/upload/'') (ustr ''h/x.png'') \<and>
   cld_transform_url (ustr ''h/x.png'') (ustr ''a/upload/b'') = ustr ''h/x.png'' \<and>
   \<not> sublist (ustr ''/upload/'') (ustr ''h'' @ ustr ''/upload'') \<and>
   cld_transform_url (ustr ''h'' @ ustr ''/upload/'' @ ustr ''x.png'') (ustr ''a/upload/b'') =
     ustr ''h/upload/a/upload/b/x.png''"
proof -
  have h1: "\<not> sublist (ustr ''/upload/'') (ustr ''h/x.png'')"
    by (simp add: ustr_def sublist_Cons_right)
  have h2: "\<not> sublist (ustr ''/upload/'') (ustr ''h'' @ ustr ''/upload'')"
    by (simp add: ustr_def sublist_Cons_right)
  have h3: "\<not> sublist (ustr ''/upload/'') (ustr ''x.png'')"
    by (simp add: ustr_def sublist_Cons_right)
  have e: "ustr ''h'' @ ustr ''/upload/'' @ ustr ''a/upload/b'' @ ustr ''/'' @ ustr ''x.png'' = ustr ''h/upload/a/upload/b/x.png''"
    by (simp add: ustr_def)
  from cld_transform_url_insert [of "ustr ''h/x.png''" "ustr ''a/upload/b''" "ustr ''h''" "ustr ''x.png''"] h1 h2 h3
  show ?thesis unfolding e [symmetric] by blast
qed

lemma map_of_sign_params:
  "pid \<noteq> [] \<Longrightarrow> map_of (sign_params cfg ts pid) (ustr ''public_id'') = Some (PStr pid)"
  by (simp add: sign_params_def ustr_def)

lemma public_id_signed:
  "pid \<noteq> [] \<Longrightarrow> ustr ''public_id'' \<in> set (signed_names (sign_params cfg ts pid))"
  by (simp add: sign_params_def signed_names_def ustr_def)

lemma payload_public_id:
  "pid \<noteq> [] \<Longrightarrow>
   map_of (dict_literal ((ustr ''file'', d) # sign_params cfg ts pid @
             [(ustr ''api_key'', a), (ustr ''signature'', s)])) (ustr ''public_id'') = Some (PStr pid)"
  by (simp add: sign_params_def dict_literal_def ustr_def)

lemma upload_http: "list_all is_http (fst (upload_to_cloudinary lib cfg w n url pid ref))"
  by (simp add: upload_to_cloudinary_def Let_def split: sum.split option.split)

lemma upload_carries:
  "pid \<noteq> [] \<Longrightarrow> list_all (post_carries pid) (fst (upload_to_cloudinary lib cfg w n url pid ref))"
  by (simp add: upload_to_cloudinary_def Let_def payload_public_id split: sum.split option.split)

lemma upload_events:
  "e \<in> set (fst (upload_to_cloudinary lib cfg w n url pid ref)) \<Longrightarrow> is_http e"
  using upload_http[of lib cfg w n url pid ref] by (simp add: list_all_iff)

lemma process_row_skip:
  "\<not> row_valid lib cols row \<Longrightarrow>
   \<exists>m. process_row lib cfg w cols idx row st = ([Print m], st)"
  by (auto simp: process_row_def row_valid_def Let_def)

lemma process_row_attempt:
  assumes "row_valid lib cols row"
  shows "\<exists>m st'. process_row lib cfg w cols idx row st =
           (fst (upload_to_cloudinary lib cfg w idx (cell_str lib (row_get cols row (ustr ''Image'')))
                   (row_public_id lib cfg cols row (cell_str lib (row_get cols row (ustr ''SKU''))))
                   (if optional_cell lib cols row (ustr ''Starting Url'') \<noteq> []
                    then Some (optional_cell lib cols row (ustr ''Starting Url'')) else None))
            @ [Print m, Sleep (throttle_sec cfg)], st')"
  using assms
  by (auto simp: process_row_def row_valid_def Let_def split: prod.splits sum.splits)

lemma process_row_failed:
  assumes "row_valid lib cols row"
    and "snd (upload_to_cloudinary lib cfg w idx (cell_str lib (row_get cols row (ustr ''Image'')))
                   (row_public_id lib cfg cols row (cell_str lib (row_get cols row (ustr ''SKU''))))
                   (if optional_cell lib cols row (ustr ''Starting Url'') \<noteq> []
                    then Some (optional_cell lib cols row (ustr ''Starting Url'')) else None)) = Inl e"
  shows "snd (process_row lib cfg w cols idx row st) = st\<lparr>attempted := attempted st + 1\<rparr>"
  using assms
  by (auto simp: process_row_def row_valid_def Let_def split: prod.splits sum.splits)

lemma process_row_inv:
  assumes "processed st = int (length (out_rows st))" "processed st \<le> attempted st"
  shows "processed (snd (process_row lib cfg w cols idx row st)) =
           int (length (out_rows (snd (process_row lib cfg w cols idx row st)))) \<and>
         processed (snd (process_row lib cfg w cols idx row st)) \<le>
           attempted (snd (process_row lib cfg w cols idx row st))"
  using assms
  by (auto simp: process_row_def Let_def split: prod.splits sum.splits)

lemma run_rows_Cons:
  "fst (run_rows lib cfg w cols ((idx, row) # rest) st) =
     fst (process_row lib cfg w cols idx row st) @
     fst (run_rows lib cfg w cols rest (snd (process_row lib cfg w cols idx row st)))"
  "snd (run_rows lib cfg w cols ((idx, row) # rest) st) =
     snd (run_rows lib cfg w cols rest (snd (process_row lib cfg w cols idx row st)))"
  by (simp_all split: prod.splits)

lemma run_rows_inv:
  "processed st = int (length (out_rows st)) \<Longrightarrow> processed st \<le> attempted st \<Longrightarrow>
   processed (snd (run_rows lib cfg w cols rows st)) =
     int (length (out_rows (snd (run_rows lib cfg w cols rows st)))) \<and>
   processed (snd (run_rows lib cfg w cols rows st)) \<le> attempted (snd (run_rows lib cfg w cols rows st))"
proof (induction rows arbitrary: st)
  case Nil
  then show ?case by simp
next
  case (Cons r rows)
  obtain idx row where r: "r = (idx, row)" by (cases r)
  show ?case
    unfolding r run_rows_Cons
    by (rule Cons.IH) (use process_row_inv[OF Cons.prems] in blast)+
qed

lemma process_row_events:
  assumes "row_valid lib cols row"
  shows "\<exists>pre m. fst (process_row lib cfg w cols idx row st) = pre @ [Print m, Sleep (throttle_sec cfg)] \<and>
           (\<forall>e\<in>set pre. is_http e)"
proof -
  from process_row_attempt[OF assms, of cfg w idx st] obtain m st' where
    "process_row lib cfg w cols idx row st =
           (fst (upload_to_cloudinary lib cfg w idx (cell_str lib (row_get cols row (ustr ''Image'')))
                   (row_public_id lib cfg cols row (cell_str lib (row_get cols row (ustr ''SKU''))))
                   (if optional_cell lib cols row (ustr ''Starting Url'') \<noteq> []
                    then Some (optional_cell lib cols row (ustr ''Starting Url'')) else None))
            @ [Print m, Sleep (throttle_sec cfg)], st')"
    by blast
  then show ?thesis using upload_events by fastforce
qed

lemma http_event_kind: "is_http e \<Longrightarrow> \<not> is_sleep e \<and> \<not> is_to_excel e"
  by (cases e) simp_all

lemma http_not_sleep: "\<forall>e\<in>set pre. is_http e \<Longrightarrow> filter is_sleep pre = []"
  by (auto simp: filter_empty_conv http_event_kind)

lemma http_not_excel: "\<forall>e\<in>set pre. is_http e \<Longrightarrow> \<not> list_ex is_to_excel pre"
  by (auto simp: list_ex_iff http_event_kind)

lemma process_row_sleeps:
  "length (filter is_sleep (fst (process_row lib cfg w cols idx row st))) =
     (if row_valid lib cols row then 1 else 0)"
proof (cases "row_valid lib cols row")
  case True
  from process_row_events[OF True, of cfg w idx st] show ?thesis
    using True by (auto simp: http_not_sleep)
next
  case False
  from process_row_skip[OF False, of cfg w idx st] show ?thesis using False by auto
qed

lemma run_rows_sleeps:
  "length (filter is_sleep (fst (run_rows lib cfg w cols rows st))) =
     length (filter (\<lambda>(idx, row). row_valid lib cols row) rows)"
proof (induction rows arbitrary: st)
  case Nil
  show ?case by simp
next
  case (Cons r rows)
  obtain idx row where r: "r = (idx, row)" by (cases r)
  show ?case
    unfolding r run_rows_Cons by (simp add: process_row_sleeps Cons.IH)
qed

lemma process_row_no_excel:
  "\<not> list_ex is_to_excel (fst (process_row lib cfg w cols idx row st))"
proof (cases "row_valid lib cols row")
  case True
  from process_row_events[OF True, of cfg w idx st] show ?thesis
    by (auto simp: http_not_excel)
next
  case False
  from process_row_skip[OF False, of cfg w idx st] show ?thesis by auto
qed

lemma run_rows_no_excel:
  "\<not> list_ex is_to_excel (fst (run_rows lib cfg w cols rows st))"
proof (induction rows arbitrary: st)
  case Nil
  show ?case by simp
next
  case (Cons r rows)
  obtain idx row where r: "r = (idx, row)" by (cases r)
  show ?case
    unfolding r run_rows_Cons using process_row_no_excel Cons.IH by simp
qed

lemma process_row_attempted:
  "attempted (snd (process_row lib cfg w cols idx row st)) =
     attempted st + (if row_valid lib cols row then 1 else 0)"
  by (auto simp: process_row_def row_valid_def Let_def split: prod.splits sum.splits)

lemma run_rows_attempted:
  "attempted (snd (run_rows lib cfg w cols rows st)) =
     attempted st + int (length (filter (\<lambda>(idx, row). row_valid lib cols row) rows))"
proof (induction rows arbitrary: st)
  case Nil
  show ?case by simp
next
  case (Cons r rows)
  obtain idx row where r: "r = (idx, row)" by (cases r)
  show ?case
    unfolding r run_rows_Cons by (simp add: Cons.IH process_row_attempted)
qed

lemma filter_zip_length:
  "length is = length xs \<Longrightarrow>
   length (filter (\<lambda>(idx, row). P row) (zip is xs)) = length (filter P xs)"
  by (induction "is" xs rule: list_induct2) auto

lemma filter_indexed:
  "length (filter (\<lambda>(idx, row). P row) (zip [0..<length xs] xs)) = length (filter P xs)"
  by (rule filter_zip_length) simp

lemma row_points_last:
  "last (st # row_points lib cfg w cols idx row st) = snd (process_row lib cfg w cols idx row st)"
  by (auto simp: process_row_def row_points_def Let_def split: prod.splits sum.splits)

lemma row_points_weak:
  assumes "processed st = int (length (out_rows st))" "processed st \<le> attempted st"
  shows "list_all (\<lambda>p. processed p \<le> attempted p \<and> processed p \<le> int (length (out_rows p)) \<and>
                       int (length (out_rows p)) \<le> processed p + 1)
           (row_points lib cfg w cols idx row st)"
  using assms
  by (auto simp: row_points_def Let_def split: prod.splits sum.splits)

lemma run_points_weak:
  "processed st = int (length (out_rows st)) \<Longrightarrow> processed st \<le> attempted st \<Longrightarrow>
   list_all (\<lambda>p. processed p \<le> attempted p \<and> processed p \<le> int (length (out_rows p)) \<and>
                  int (length (out_rows p)) \<le> processed p + 1)
     (run_points lib cfg w cols rows st)"
proof (induction rows arbitrary: st)
  case Nil
  show ?case by simp
next
  case (Cons r rows)
  obtain idx row where r: "r = (idx, row)" by (cases r)
  have a: "list_all (\<lambda>p. processed p \<le> attempted p \<and> processed p \<le> int (length (out_rows p)) \<and>
                  int (length (out_rows p)) \<le> processed p + 1)
             (row_points lib cfg w cols idx row st)"
    using Cons.prems by (rule row_points_weak)
  have b: "list_all (\<lambda>p. processed p \<le> attempted p \<and> processed p \<le> int (length (out_rows p)) \<and>
                  int (length (out_rows p)) \<le> processed p + 1)
             (run_points lib cfg w cols rows (snd (process_row lib cfg w cols idx row st)))"
    by (rule Cons.IH) (use process_row_inv[OF Cons.prems] in blast)+
  show ?case unfolding r using a b by simp
qed

lemma payload_signature:
  "map_of (dict_literal ((ustr ''file'', d) # sign_params cfg ts pid @
             [(ustr ''api_key'', a), (ustr ''signature'', s)])) (ustr ''signature'') = Some s"
  by (simp add: dict_literal_def update_conv')

lemma upload_signed:
  "list_all (post_signed lib cfg (str_int (now_timestamp w n)) pid)
     (fst (upload_to_cloudinary lib cfg w n url pid ref))"
  by (simp add: upload_to_cloudinary_def cld_signature_def Let_def payload_signature
      split: sum.split option.split)

lemmas run_defs =
  main_def process_row_def upload_to_cloudinary_def row_public_id_def optional_cell_def row_get_def
  cell_str_def strip_chars_def is_space_def settings_def sample_world_def truthy_def Let_def
  to_public_id_def collapse_and_trim_def nonword_to_underscore_def strip_accents_def is_word_def
  sample_lib_def ustr_def str_int_def sample_cfg_def sample_cols_def sample_table_def row_abc1_def
  row_no_sku_def sample_answer_def

text \<open>
  Claim C4, as amended. A row that passes validation is attempted, and whether the
  upload succeeds or fails its processing ends with exactly one sleep of the throttle
  interval; a row skipped for a missing SKU or a missing Image does not sleep (the
  \<open>continue\<close> statements come before the \<open>try ... finally\<close>). Over a whole run
  the number of sleeps is the number of rows that pass validation.
\<close>

theorem throttle_after_attempted_rows:
  "(row_valid lib cols row \<longrightarrow>
      (\<exists>pre. fst (process_row lib cfg w cols idx row st) = pre @ [Sleep (throttle_sec cfg)] \<and>
             filter is_sleep pre = [])) \<and>
   (\<not> row_valid lib cols row \<longrightarrow> filter is_sleep (fst (process_row lib cfg w cols idx row st)) = []) \<and>
   length (filter is_sleep (fst (run_rows lib cfg w cols rows st))) =
     length (filter (\<lambda>(idx, row). row_valid lib cols row) rows)"
proof (intro conjI impI)
  assume v: "row_valid lib cols row"
  from process_row_events[OF v, of cfg w idx st] obtain pre m where
    p: "fst (process_row lib cfg w cols idx row st) = pre @ [Print m, Sleep (throttle_sec cfg)]"
    and h: "\<forall>e\<in>set pre. is_http e" by blast
  have "fst (process_row lib cfg w cols idx row st) = (pre @ [Print m]) @ [Sleep (throttle_sec cfg)]"
    using p by simp
  moreover have "filter is_sleep (pre @ [Print m]) = []"
    using h by (simp add: http_not_sleep)
  ultimately show "\<exists>pre. fst (process_row lib cfg w cols idx row st) = pre @ [Sleep (throttle_sec cfg)] \<and>
             filter is_sleep pre = []" by blast
next
  assume v: "\<not> row_valid lib cols row"
  from process_row_skip[OF v, of cfg w idx st]
  show "filter is_sleep (fst (process_row lib cfg w cols idx row st)) = []" by auto
next
  show "length (filter is_sleep (fst (run_rows lib cfg w cols rows st))) =
     length (filter (\<lambda>(idx, row). row_valid lib cols row) rows)"
    by (rule run_rows_sleeps)
qed

text \<open>
  Claim C4 as stated fails for a skipped row: on a table whose only row has no SKU the
  run prints the skip message and the final message, and never sleeps.
\<close>

theorem skipped_row_no_sleep_counterexample:
  "main sample_lib sample_cfg (sample_world (sample_table [row_no_sku]) 200 sample_answer) =
   ([Print (ustr ''[Row 2] Missing SKU '' @ [0x2013] @ ustr '' skipping''),
     Print (ustr ''No rows processed; nothing to write.'')],
    Finished \<lparr> out_rows = [], attempted = 0, processed = 0 \<rparr>)"
  by (simp add: run_defs)

text \<open>
  The theorem at a table with one valid row, whose download fails, and one row without
  SKU: one sleep in the run, none for the skipped row.
\<close>

theorem throttle_after_attempted_rows_witness:
  "row_valid sample_lib sample_cols row_abc1 \<and>
   length (filter is_sleep (fst (run_rows sample_lib sample_cfg
       (sample_world (sample_table [row_abc1, row_no_sku]) 404 sample_answer)
       sample_cols [(0, row_abc1), (1, row_no_sku)] initial_state))) = 1 \<and>
   filter is_sleep (fst (process_row sample_lib sample_cfg
       (sample_world (sample_table [row_abc1, row_no_sku]) 404 sample_answer)
       sample_cols 1 row_no_sku initial_state)) = []"
proof -
  let ?w = "sample_world (sample_table [row_abc1, row_no_sku]) 404 sample_answer"
  have v: "row_valid sample_lib sample_cols row_abc1"
    by (simp add: row_valid_def row_get_def cell_str_def strip_chars_def is_space_def ustr_def
        sample_cols_def row_abc1_def)
  have n: "\<not> row_valid sample_lib sample_cols row_no_sku"
    by (simp add: row_valid_def row_get_def cell_str_def strip_chars_def is_space_def ustr_def
        sample_cols_def row_no_sku_def)
  note t = throttle_after_attempted_rows [where lib = sample_lib and cols = sample_cols and row = row_no_sku
      and cfg = sample_cfg and w = ?w and idx = 1 and st = initial_state
      and rows = "[(0, row_abc1), (1, row_no_sku)]"]
  from t n have a: "filter is_sleep (fst (process_row sample_lib sample_cfg ?w
       sample_cols 1 row_no_sku initial_state)) = []"
    by blast
  from t have "length (filter is_sleep (fst (run_rows sample_lib sample_cfg ?w sample_cols
          [(0, row_abc1), (1, row_no_sku)] initial_state))) =
        length (filter (\<lambda>(idx, row). row_valid sample_lib sample_cols row)
          [(0::nat, row_abc1), (1, row_no_sku)])"
    by blast
  with v n a show ?thesis by simp
qed

text \<open>
  Claim C7, as amended. When no row produced an output row, no output file is written;
  if the run reached the row loop, its final message is
  \<open>No rows processed; nothing to write.\<close>, which reports no counts, the processed
  counter is 0 and the attempted counter is the number of rows of the table that pass
  validation. A run aborted before the loop writes no file either.
\<close>

theorem no_rows_no_file:
  "(snd (main lib cfg w) = Finished st \<and> out_rows st = [] \<longrightarrow>
      \<not> list_ex is_to_excel (fst (main lib cfg w)) \<and>
      last (fst (main lib cfg w)) = Print (ustr ''No rows processed; nothing to write.'') \<and>
      processed st = 0 \<and>
      (\<exists>df. read_excel w (source_xlsx cfg) (source_sheet cfg) = Inr df \<and>
            attempted st = int (length (filter (row_valid lib (tbl_columns df)) (tbl_rows df))))) \<and>
   (snd (main lib cfg w) = Aborted \<longrightarrow> \<not> list_ex is_to_excel (fst (main lib cfg w)))"
proof -
  let ?st0 = "\<lparr> out_rows = [], attempted = 0, processed = 0 \<rparr>"
  have inv: "processed (snd (run_rows lib cfg w cols rows ?st0)) =
               int (length (out_rows (snd (run_rows lib cfg w cols rows ?st0))))" for cols rows
    using run_rows_inv[of ?st0 lib cfg w cols rows] by simp
  have nx: "\<not> list_ex is_to_excel (fst (run_rows lib cfg w cols rows ?st0))" for cols rows
    by (rule run_rows_no_excel)
  show ?thesis
  proof (cases "truthy (cloud_name cfg) \<and> truthy (cloud_api_key cfg) \<and> truthy (cloud_api_secret cfg)")
    case False
    then show ?thesis by (auto simp: main_def)
  next
    case creds: True
    show ?thesis
    proof (cases "read_excel w (source_xlsx cfg) (source_sheet cfg)")
      case (Inl e)
      with creds show ?thesis by (simp add: main_def)
    next
      case (Inr df)
      show ?thesis
      proof (cases "ustr ''SKU'' \<in> set (tbl_columns df) \<and> ustr ''Image'' \<in> set (tbl_columns df)")
        case False
        with creds Inr show ?thesis by (auto simp: main_def)
      next
        case True
        obtain evs st' where r: "run_rows lib cfg w (tbl_columns df)
             (zip [0..<length (tbl_rows df)] (tbl_rows df)) ?st0 = (evs, st')"
          by (cases "run_rows lib cfg w (tbl_columns df) (zip [0..<length (tbl_rows df)] (tbl_rows df)) ?st0")
        have p: "processed st' = int (length (out_rows st'))"
          using inv[of "tbl_columns df" "zip [0..<length (tbl_rows df)] (tbl_rows df)"] r by simp
        have x: "\<not> list_ex is_to_excel evs"
          using nx[of "tbl_columns df" "zip [0..<length (tbl_rows df)] (tbl_rows df)"] r by simp
        have a: "attempted st' = int (length (filter (row_valid lib (tbl_columns df)) (tbl_rows df)))"
          using run_rows_attempted[of lib cfg w "tbl_columns df"
              "zip [0..<length (tbl_rows df)] (tbl_rows df)" ?st0] r
          by (simp add: filter_indexed)
        show ?thesis
          using creds Inr True r p x a
          by (auto simp: main_def Let_def split: option.splits)
      qed
    qed
  qed
qed

text \<open>
  Claim C7 as stated fails when a row is attempted and its download fails: no output
  row is produced, the attempted counter is 1, and the final message is
  \<open>No rows processed; nothing to write.\<close>, without any count.
\<close>

theorem no_rows_summary_counterexample:
  "main sample_lib sample_cfg (sample_world (sample_table [row_abc1]) 404 sample_answer) =
   ([HttpGet (ustr ''http://x/a.png'')
       [(ustr ''User-Agent'', ustr ''Mozilla/5.0''),
        (ustr ''Accept'', ustr ''image/avif,image/webp,image/apng,image/*,*/*;q=0.8'')],
     Print ([0x274C] @ ustr '' Row 2 ABC1: Fetch failed (404) for URL: http://x/a.png''),
     Sleep 0x3FD3333333333333,
     Print (ustr ''No rows processed; nothing to write.'')],
    Finished \<lparr> out_rows = [], attempted = 1, processed = 0 \<rparr>)"
  by (simp add: run_defs)

text \<open>
  The theorem at a table with one valid row, whose download answers 404, and one row
  without SKU: no file, the fixed final message, one row attempted.
\<close>

theorem no_rows_no_file_witness:
  "snd (main sample_lib sample_cfg (sample_world (sample_table [row_abc1, row_no_sku]) 404 sample_answer)) =
     Finished \<lparr> out_rows = [], attempted = 1, processed = 0 \<rparr> \<and>
   \<not> list_ex is_to_excel
       (fst (main sample_lib sample_cfg (sample_world (sample_table [row_abc1, row_no_sku]) 404 sample_answer))) \<and>
   last (fst (main sample_lib sample_cfg (sample_world (sample_table [row_abc1, row_no_sku]) 404 sample_answer))) =
     Print (ustr ''No rows processed; nothing to write.'') \<and>
   read_excel (sample_world (sample_table [row_abc1, row_no_sku]) 404 sample_answer)
     (source_xlsx sample_cfg) (source_sheet sample_cfg) = Inr (sample_table [row_abc1, row_no_sku]) \<and>
   length (filter (row_valid sample_lib (tbl_columns (sample_table [row_abc1, row_no_sku])))
             (tbl_rows (sample_table [row_abc1, row_no_sku]))) = 1"
proof -
  let ?w = "sample_world (sample_table [row_abc1, row_no_sku]) 404 sample_answer"
  let ?S = "\<lparr> out_rows = [], attempted = 1, processed = 0 \<rparr>"
  have f: "snd (main sample_lib sample_cfg ?w) = Finished ?S"
    by (simp add: run_defs)
  have e: "out_rows ?S = []" by simp
  have rd: "read_excel ?w (source_xlsx sample_cfg) (source_sheet sample_cfg) =
              Inr (sample_table [row_abc1, row_no_sku])"
    by (simp add: sample_world_def)
  from no_rows_no_file [where lib = sample_lib and cfg = sample_cfg and w = ?w and st = ?S] f e
  have c: "\<not> list_ex is_to_excel (fst (main sample_lib sample_cfg ?w)) \<and>
      last (fst (main sample_lib sample_cfg ?w)) = Print (ustr ''No rows processed; nothing to write.'') \<and>
      (\<exists>df. read_excel ?w (source_xlsx sample_cfg) (source_sheet sample_cfg) = Inr df \<and>
            attempted ?S = int (length (filter (row_valid sample_lib (tbl_columns df)) (tbl_rows df))))"
    by blast
  then obtain df where d: "read_excel ?w (source_xlsx sample_cfg) (source_sheet sample_cfg) = Inr df"
    and n: "attempted ?S = int (length (filter (row_valid sample_lib (tbl_columns df)) (tbl_rows df)))"
    by blast
  from d rd have "df = sample_table [row_abc1, row_no_sku]" by simp
  with n have "length (filter (row_valid sample_lib (tbl_columns (sample_table [row_abc1, row_no_sku])))
             (tbl_rows (sample_table [row_abc1, row_no_sku]))) = 1"
    by simp
  with f c rd show ?thesis by blast
qed

lemma all_cols_eq:
  "fold (\<lambda>col acc. if col \<notin> set acc then acc @ [col] else acc)
     [ustr ''Variant SKU'', ustr ''Image Src''] cs =
   cs @ filter (\<lambda>c. c \<notin> set cs) [ustr ''Variant SKU'', ustr ''Image Src'']"
  by (simp add: ustr_def)

text \<open>
  Claim C5. Whenever an output file is written, its columns are the columns of the
  input table in their original order, followed by \<open>Variant SKU\<close> and
  \<open>Image Src\<close>, each only if it is not already among the original columns.
\<close>

theorem output_column_order:
  assumes df: "read_excel w (source_xlsx cfg) (source_sheet cfg) = Inr df"
    and ev: "ToExcel path cols data \<in> set (fst (main lib cfg w))"
  shows "cols = tbl_columns df @
           filter (\<lambda>c. c \<notin> set (tbl_columns df)) [ustr ''Variant SKU'', ustr ''Image Src''] \<and>
         take (length (tbl_columns df)) cols = tbl_columns df"
proof -
  let ?st0 = "\<lparr> out_rows = [], attempted = 0, processed = 0 \<rparr>"
  let ?rows = "zip [0..<length (tbl_rows df)] (tbl_rows df)"
  obtain evs st where r: "run_rows lib cfg w (tbl_columns df) ?rows ?st0 = (evs, st)"
    by (cases "run_rows lib cfg w (tbl_columns df) ?rows ?st0")
  have x: "ToExcel path cols data \<notin> set evs"
    using run_rows_no_excel[of lib cfg w "tbl_columns df" ?rows ?st0] r
    by (auto simp: list_ex_iff)
  have "cols = fold (\<lambda>col acc. if col \<notin> set acc then acc @ [col] else acc)
                 [ustr ''Variant SKU'', ustr ''Image Src''] (tbl_columns df)"
  proof (cases "truthy (cloud_name cfg) \<and> truthy (cloud_api_key cfg) \<and> truthy (cloud_api_secret cfg)")
    case False
    with ev show ?thesis by (auto simp: main_def)
  next
    case creds: True
    show ?thesis
    proof (cases "ustr ''SKU'' \<in> set (tbl_columns df)")
      case False
      with creds df ev show ?thesis by (simp add: main_def)
    next
      case sku: True
      show ?thesis
      proof (cases "ustr ''Image'' \<in> set (tbl_columns df)")
        case False
        with creds df sku ev show ?thesis by (simp add: main_def)
      next
        case True
        with creds df sku ev r x show ?thesis
          by (auto simp: main_def Let_def split: option.splits if_splits)
      qed
    qed
  qed
  then have "cols = tbl_columns df @
           filter (\<lambda>c. c \<notin> set (tbl_columns df)) [ustr ''Variant SKU'', ustr ''Image Src'']"
    by (simp only: all_cols_eq)
  then show ?thesis by simp
qed

text \<open>
  The theorem at a run that uploads one row and writes the output file.
\<close>

theorem output_column_order_witness:
  "read_excel (sample_world (sample_table [row_abc1]) 200 sample_answer)
     (source_xlsx sample_cfg) (source_sheet sample_cfg) = Inr (sample_table [row_abc1]) \<and>
   ToExcel (ustr ''final_output.xlsx'')
     [ustr ''SKU'', ustr ''Image'', ustr ''Variant SKU'', ustr ''Image Src'']
     [[Some (ustr ''ABC1''), Some (ustr ''http://x/a.png''), Some (ustr ''ABC1''),
       Some (ustr ''https://h/image/upload/c_pad,w_800,h_800,b_white,f_auto,q_auto,dpr_auto/v1/a.png'')]]
     \<in> set (fst (main sample_lib sample_cfg (sample_world (sample_table [row_abc1]) 200 sample_answer))) \<and>
   take (length (tbl_columns (sample_table [row_abc1])))
     [ustr ''SKU'', ustr ''Image'', ustr ''Variant SKU'', ustr ''Image Src''] =
     tbl_columns (sample_table [row_abc1])"
proof -
  let ?w = "sample_world (sample_table [row_abc1]) 200 sample_answer"
  have r: "read_excel ?w (source_xlsx sample_cfg) (source_sheet sample_cfg) = Inr (sample_table [row_abc1])"
    by (simp add: sample_world_def)
  have e: "ToExcel (ustr ''final_output.xlsx'')
     [ustr ''SKU'', ustr ''Image'', ustr ''Variant SKU'', ustr ''Image Src'']
     [[Some (ustr ''ABC1''), Some (ustr ''http://x/a.png''), Some (ustr ''ABC1''),
       Some (ustr ''https://h/image/upload/c_pad,w_800,h_800,b_white,f_auto,q_auto,dpr_auto/v1/a.png'')]]
     \<in> set (fst (main sample_lib sample_cfg ?w))"
    by (simp add: run_defs cld_signature_def to_sign_def signed_names_def sign_params_def
        dict_literal_def utf8_char_def cld_transform_url_def str_replace_def opt_val_def)
  from output_column_order [OF r e] r e show ?thesis by blast
qed

text \<open>
  Claim C6. For a row that passes validation the identifier is the sanitized Image Alt
  Text when the policy flag is set and that value is not empty, otherwise the sanitized
  Product Name when it is not empty, otherwise the SKU; and the uploader is called with
  this identifier.
\<close>

theorem upload_identifier_choice:
  assumes "row_valid lib cols row"
  shows "row_public_id lib cfg cols row (cell_str lib (row_get cols row (ustr ''SKU''))) =
           spec_identifier (use_image_alt_text_as_public_id cfg)
             (to_public_id lib (optional_cell lib cols row (ustr ''Image Alt Text'')))
             (to_public_id lib (optional_cell lib cols row (ustr ''Product Name'')))
             (cell_str lib (row_get cols row (ustr ''SKU''))) \<and>
         (\<exists>m. fst (process_row lib cfg w cols idx row st) =
            fst (upload_to_cloudinary lib cfg w idx (cell_str lib (row_get cols row (ustr ''Image'')))
                   (spec_identifier (use_image_alt_text_as_public_id cfg)
                      (to_public_id lib (optional_cell lib cols row (ustr ''Image Alt Text'')))
                      (to_public_id lib (optional_cell lib cols row (ustr ''Product Name'')))
                      (cell_str lib (row_get cols row (ustr ''SKU''))))
                   (if optional_cell lib cols row (ustr ''Starting Url'') \<noteq> []
                    then Some (optional_cell lib cols row (ustr ''Starting Url'')) else None))
            @ [Print m, Sleep (throttle_sec cfg)])"
proof -
  have eq: "row_public_id lib cfg cols row (cell_str lib (row_get cols row (ustr ''SKU''))) =
           spec_identifier (use_image_alt_text_as_public_id cfg)
             (to_public_id lib (optional_cell lib cols row (ustr ''Image Alt Text'')))
             (to_public_id lib (optional_cell lib cols row (ustr ''Product Name'')))
             (cell_str lib (row_get cols row (ustr ''SKU'')))"
    by (simp add: row_public_id_def spec_identifier_def Let_def)
  from process_row_attempt[OF assms, of cfg w idx st] show ?thesis
    unfolding eq by (metis eq fst_conv)
qed

text \<open>
  The theorem at the row \<open>SKU = ABC1, Image Alt Text = Red Widget!\<close>: the identifier
  is \<open>Red_Widget\<close>.
\<close>

theorem upload_identifier_choice_witness:
  "row_valid sample_lib alt_cols row_widget \<and>
   row_public_id sample_lib sample_cfg alt_cols row_widget
     (cell_str sample_lib (row_get alt_cols row_widget (ustr ''SKU''))) = ustr ''Red_Widget''"
proof -
  have v: "row_valid sample_lib alt_cols row_widget"
    by (simp add: row_valid_def row_get_def cell_str_def strip_chars_def is_space_def ustr_def
        alt_cols_def row_widget_def)
  have e: "spec_identifier (use_image_alt_text_as_public_id sample_cfg)
             (to_public_id sample_lib (optional_cell sample_lib alt_cols row_widget (ustr ''Image Alt Text'')))
             (to_public_id sample_lib (optional_cell sample_lib alt_cols row_widget (ustr ''Product Name'')))
             (cell_str sample_lib (row_get alt_cols row_widget (ustr ''SKU''))) = ustr ''Red_Widget''"
    by (simp add: spec_identifier_def optional_cell_def row_get_def cell_str_def strip_chars_def
        is_space_def to_public_id_def collapse_and_trim_def nonword_to_underscore_def
        strip_accents_def is_word_def sample_lib_def sample_cfg_def settings_def ustr_def
        alt_cols_def row_widget_def)
  from upload_identifier_choice [OF v, of sample_cfg] v e show ?thesis by metis
qed

lemma row_public_id_nonempty:
  "sku \<noteq> [] \<Longrightarrow> row_public_id lib cfg cols row sku \<noteq> []"
  by (simp add: row_public_id_def Let_def)

lemma sublist_join: "x \<in> set xs \<Longrightarrow> sublist x (join sep xs)"
proof (induction sep xs rule: join.induct)
  case (1 sep)
  then show ?case by simp
next
  case (2 sep y)
  then show ?case by simp
next
  case (3 sep y z zs)
  show ?case
  proof (cases "x = y")
    case True
    then show ?thesis by simp
  next
    case False
    with 3 have "sublist x (join sep (z # zs))" by simp
    then have "sublist x ((y @ sep) @ join sep (z # zs))"
      using sublist_append by blast
    then show ?thesis by simp
  qed
qed

lemma sublist_join_map: "k \<in> set names \<Longrightarrow> sublist (f k) (join sep (map f names))"
  by (rule sublist_join) simp

text \<open>
  Claim C10. For a row that passes validation the identifier given to the uploader is
  not empty. Every upload request of the row carries it as \<open>public_id\<close>, and the
  \<open>signature\<close> of the request is the digest of the string built from the signed
  parameters with this identifier at the row's time stamp; these parameters contain
  \<open>public_id\<close>, and that string contains \<open>public_id=\<close> followed by the
  identifier.
\<close>

theorem uploaded_identifier_nonempty:
  assumes "row_valid lib cols row"
  shows "row_public_id lib cfg cols row (cell_str lib (row_get cols row (ustr ''SKU''))) \<noteq> [] \<and>
         list_all (post_carries (row_public_id lib cfg cols row (cell_str lib (row_get cols row (ustr ''SKU'')))))
           (fst (process_row lib cfg w cols idx row st)) \<and>
         list_all (post_signed lib cfg (str_int (now_timestamp w idx))
                     (row_public_id lib cfg cols row (cell_str lib (row_get cols row (ustr ''SKU'')))))
           (fst (process_row lib cfg w cols idx row st)) \<and>
         map_of (sign_params cfg (str_int (now_timestamp w idx))
                   (row_public_id lib cfg cols row (cell_str lib (row_get cols row (ustr ''SKU'')))))
           (ustr ''public_id'') =
           Some (PStr (row_public_id lib cfg cols row (cell_str lib (row_get cols row (ustr ''SKU''))))) \<and>
         sublist (ustr ''public_id='' @
                  row_public_id lib cfg cols row (cell_str lib (row_get cols row (ustr ''SKU''))))
           (to_sign lib (sign_params cfg (str_int (now_timestamp w idx))
              (row_public_id lib cfg cols row (cell_str lib (row_get cols row (ustr ''SKU'')))))
              api_secret)"
proof -
  let ?pid = "row_public_id lib cfg cols row (cell_str lib (row_get cols row (ustr ''SKU'')))"
  let ?ts = "str_int (now_timestamp w idx)"
  have ne: "?pid \<noteq> []"
    using assms by (intro row_public_id_nonempty) (simp add: row_valid_def)
  from process_row_attempt[OF assms, of cfg w idx st] obtain m st' where
    p: "fst (process_row lib cfg w cols idx row st) =
          fst (upload_to_cloudinary lib cfg w idx (cell_str lib (row_get cols row (ustr ''Image''))) ?pid
                   (if optional_cell lib cols row (ustr ''Starting Url'') \<noteq> []
                    then Some (optional_cell lib cols row (ustr ''Starting Url'')) else None))
          @ [Print m, Sleep (throttle_sec cfg)]"
    by (metis fst_conv)
  have c: "list_all (post_carries ?pid) (fst (process_row lib cfg w cols idx row st))"
    unfolding p using upload_carries[OF ne] by simp
  have g: "list_all (post_signed lib cfg ?ts ?pid) (fst (process_row lib cfg w cols idx row st))"
    unfolding p using upload_signed by simp
  have m: "map_of (sign_params cfg ?ts ?pid) (ustr ''public_id'') = Some (PStr ?pid)"
    using ne by (rule map_of_sign_params)
  have "sublist ((\<lambda>k. k @ ustr ''='' @ py_str lib (the (map_of (sign_params cfg ?ts ?pid) k))) (ustr ''public_id''))
               (join (ustr ''&'') (map (\<lambda>k. k @ ustr ''='' @ py_str lib (the (map_of (sign_params cfg ?ts ?pid) k)))
                     (signed_names (sign_params cfg ?ts ?pid))))"
    by (rule sublist_join_map[OF public_id_signed[OF ne]])
  then have "sublist (ustr ''public_id'' @ ustr ''='' @ ?pid)
               (join (ustr ''&'') (map (\<lambda>k. k @ ustr ''='' @ py_str lib (the (map_of (sign_params cfg ?ts ?pid) k)))
                     (signed_names (sign_params cfg ?ts ?pid))))"
    using m by simp
  then have "sublist (ustr ''public_id'' @ ustr ''='' @ ?pid) (to_sign lib (sign_params cfg ?ts ?pid) api_secret)"
    unfolding to_sign_def using sublist_append by blast
  moreover have "ustr ''public_id'' @ ustr ''='' @ ?pid = ustr ''public_id='' @ ?pid"
    by (simp add: ustr_def)
  ultimately have s: "sublist (ustr ''public_id='' @ ?pid) (to_sign lib (sign_params cfg ?ts ?pid) api_secret)"
    by simp
  from ne c g m s show ?thesis by blast
qed

text \<open>
  The theorem at a row whose download and upload succeed: the upload request of the
  run, with its \<open>public_id\<close> and its signature.
\<close>

theorem uploaded_identifier_nonempty_witness:
  "row_valid sample_lib sample_cols row_abc1 \<and>
   (HttpPost (ustr ''https://api.cloudinary.com/v1_1/demo/image/upload'')
      [(ustr ''file'', PStr (ustr ''data:image/png;base64,'')),
       (ustr ''folder'', PStr (ustr ''husq_parts'')),
       (ustr ''overwrite'', PStr (ustr ''true'')),
       (ustr ''unique_filename'', PStr (ustr ''false'')),
       (ustr ''timestamp'', PStr (ustr ''1700000000'')),
       (ustr ''public_id'', PStr (ustr ''ABC1'')),
       (ustr ''api_key'', PStr (ustr ''key'')),
       (ustr ''signature'', PStr (ustr ''fc0496abcd948ffeff9bdfb6f79779fdbe574301''))]) \<in> set (fst (process_row sample_lib sample_cfg (sample_world (sample_table [row_abc1]) 200 sample_answer) sample_cols 0 row_abc1 initial_state)) \<and>
   (row_public_id sample_lib sample_cfg sample_cols row_abc1
        (cell_str sample_lib (row_get sample_cols row_abc1 (ustr ''SKU'')))) \<noteq> [] \<and>
   post_carries (row_public_id sample_lib sample_cfg sample_cols row_abc1
        (cell_str sample_lib (row_get sample_cols row_abc1 (ustr ''SKU''))))
     (HttpPost (ustr ''https://api.cloudinary.com/v1_1/demo/image/upload'')
      [(ustr ''file'', PStr (ustr ''data:image/png;base64,'')),
       (ustr ''folder'', PStr (ustr ''husq_parts'')),
       (ustr ''overwrite'', PStr (ustr ''true'')),
       (ustr ''unique_filename'', PStr (ustr ''false'')),
       (ustr ''timestamp'', PStr (ustr ''1700000000'')),
       (ustr ''public_id'', PStr (ustr ''ABC1'')),
       (ustr ''api_key'', PStr (ustr ''key'')),
       (ustr ''signature'', PStr (ustr ''fc0496abcd948ffeff9bdfb6f79779fdbe574301''))]) \<and>
   post_signed sample_lib sample_cfg (str_int (now_timestamp (sample_world (sample_table [row_abc1]) 200 sample_answer) 0)) (row_public_id sample_lib sample_cfg sample_cols row_abc1
        (cell_str sample_lib (row_get sample_cols row_abc1 (ustr ''SKU''))))
     (HttpPost (ustr ''https://api.cloudinary.com/v1_1/demo/image/upload'')
      [(ustr ''file'', PStr (ustr ''data:image/png;base64,'')),
       (ustr ''folder'', PStr (ustr ''husq_parts'')),
       (ustr ''overwrite'', PStr (ustr ''true'')),
       (ustr ''unique_filename'', PStr (ustr ''false'')),
       (ustr ''timestamp'', PStr (ustr ''1700000000'')),
       (ustr ''public_id'', PStr (ustr ''ABC1'')),
       (ustr ''api_key'', PStr (ustr ''key'')),
       (ustr ''signature'', PStr (ustr ''fc0496abcd948ffeff9bdfb6f79779fdbe574301''))])"
proof -
  have v: "row_valid sample_lib sample_cols row_abc1"
    by (simp add: row_valid_def row_get_def cell_str_def strip_chars_def is_space_def ustr_def
        sample_cols_def row_abc1_def)
  have e: "(HttpPost (ustr ''https://api.cloudinary.com/v1_1/demo/image/upload'')
      [(ustr ''file'', PStr (ustr ''data:image/png;base64,'')),
       (ustr ''folder'', PStr (ustr ''husq_parts'')),
       (ustr ''overwrite'', PStr (ustr ''true'')),
       (ustr ''unique_filename'', PStr (ustr ''false'')),
       (ustr ''timestamp'', PStr (ustr ''1700000000'')),
       (ustr ''public_id'', PStr (ustr ''ABC1'')),
       (ustr ''api_key'', PStr (ustr ''key'')),
       (ustr ''signature'', PStr (ustr ''fc0496abcd948ffeff9bdfb6f79779fdbe574301''))]) \<in> set (fst (process_row sample_lib sample_cfg (sample_world (sample_table [row_abc1]) 200 sample_answer) sample_cols 0 row_abc1 initial_state))"
    by (simp add: run_defs cld_signature_def to_sign_def signed_names_def sign_params_def
        dict_literal_def utf8_char_def cld_transform_url_def str_replace_def opt_val_def
        initial_state_def)
  note t = uploaded_identifier_nonempty [OF v, where cfg = sample_cfg and w = "(sample_world (sample_table [row_abc1]) 200 sample_answer)" and idx = 0 and st = initial_state
      and api_secret = "[]"]
  from t have c: "\<forall>x\<in>set (fst (process_row sample_lib sample_cfg (sample_world (sample_table [row_abc1]) 200 sample_answer) sample_cols 0 row_abc1 initial_state)).
      post_carries (row_public_id sample_lib sample_cfg sample_cols row_abc1
        (cell_str sample_lib (row_get sample_cols row_abc1 (ustr ''SKU'')))) x"
    unfolding list_all_iff by blast
  from t have g: "\<forall>x\<in>set (fst (process_row sample_lib sample_cfg (sample_world (sample_table [row_abc1]) 200 sample_answer) sample_cols 0 row_abc1 initial_state)).
      post_signed sample_lib sample_cfg (str_int (now_timestamp (sample_world (sample_table [row_abc1]) 200 sample_answer) 0)) (row_public_id sample_lib sample_cfg sample_cols row_abc1
        (cell_str sample_lib (row_get sample_cols row_abc1 (ustr ''SKU'')))) x"
    unfolding list_all_iff by blast
  from t have n: "(row_public_id sample_lib sample_cfg sample_cols row_abc1
        (cell_str sample_lib (row_get sample_cols row_abc1 (ustr ''SKU'')))) \<noteq> []" by blast
  from v e n c g show ?thesis by blast
qed

text \<open>
  Claim C9, as amended. Before the first row and after every row the processed counter
  equals the length of the accumulated output rows and is at most the attempted counter.
  At every point inside an iteration the processed counter is at most the attempted
  counter, and the output rows are as many as the processed counter or one more (between
  lines 158 and 159). A valid row whose upload raises increments the attempted counter
  and leaves the processed counter and the output rows unchanged.
\<close>

theorem counters_invariant:
  "(\<forall>k\<le>length rows.
      processed (snd (run_rows lib cfg w cols (take k rows) initial_state)) =
        int (length (out_rows (snd (run_rows lib cfg w cols (take k rows) initial_state)))) \<and>
      processed (snd (run_rows lib cfg w cols (take k rows) initial_state)) \<le>
        attempted (snd (run_rows lib cfg w cols (take k rows) initial_state))) \<and>
   list_all (\<lambda>p. processed p \<le> attempted p \<and> processed p \<le> int (length (out_rows p)) \<and>
                  int (length (out_rows p)) \<le> processed p + 1)
     (run_points lib cfg w cols rows initial_state) \<and>
   (row_valid lib cols row \<and>
    snd (upload_to_cloudinary lib cfg w idx (cell_str lib (row_get cols row (ustr ''Image'')))
           (row_public_id lib cfg cols row (cell_str lib (row_get cols row (ustr ''SKU''))))
           (if optional_cell lib cols row (ustr ''Starting Url'') \<noteq> []
            then Some (optional_cell lib cols row (ustr ''Starting Url'')) else None)) = Inl e \<longrightarrow>
    attempted (snd (process_row lib cfg w cols idx row st)) = attempted st + 1 \<and>
    processed (snd (process_row lib cfg w cols idx row st)) = processed st \<and>
    out_rows (snd (process_row lib cfg w cols idx row st)) = out_rows st)"
proof -
  have i: "processed initial_state = int (length (out_rows initial_state))"
    "processed initial_state \<le> attempted initial_state"
    by (simp_all add: initial_state_def)
  have b: "processed (snd (run_rows lib cfg w cols (take k rows) initial_state)) =
        int (length (out_rows (snd (run_rows lib cfg w cols (take k rows) initial_state)))) \<and>
      processed (snd (run_rows lib cfg w cols (take k rows) initial_state)) \<le>
        attempted (snd (run_rows lib cfg w cols (take k rows) initial_state))" for k
    using i by (rule run_rows_inv)
  have pts: "list_all (\<lambda>p. processed p \<le> attempted p \<and> processed p \<le> int (length (out_rows p)) \<and>
                  int (length (out_rows p)) \<le> processed p + 1)
     (run_points lib cfg w cols rows initial_state)"
    using i by (rule run_points_weak)
  have f: "attempted (snd (process_row lib cfg w cols idx row st)) = attempted st + 1 \<and>
    processed (snd (process_row lib cfg w cols idx row st)) = processed st \<and>
    out_rows (snd (process_row lib cfg w cols idx row st)) = out_rows st"
    if "row_valid lib cols row \<and>
    snd (upload_to_cloudinary lib cfg w idx (cell_str lib (row_get cols row (ustr ''Image'')))
           (row_public_id lib cfg cols row (cell_str lib (row_get cols row (ustr ''SKU''))))
           (if optional_cell lib cols row (ustr ''Starting Url'') \<noteq> []
            then Some (optional_cell lib cols row (ustr ''Starting Url'')) else None)) = Inl e"
  proof -
    from that have "snd (process_row lib cfg w cols idx row st) = st\<lparr>attempted := attempted st + 1\<rparr>"
      using process_row_failed by blast
    then show ?thesis by simp
  qed
  from b pts f show ?thesis by blast
qed

text \<open>
  Claim C9 as stated fails inside a successful iteration: after the row has been appended
  (line 158) and before the counter is incremented (line 159) there is one output row
  and the processed counter is still 0.
\<close>

theorem counters_point_counterexample:
  "processed (run_points sample_lib sample_cfg (sample_world (sample_table [row_abc1]) 200 sample_answer) sample_cols [(0, row_abc1)] initial_state ! 1) = 0 \<and>
   length (out_rows (run_points sample_lib sample_cfg (sample_world (sample_table [row_abc1]) 200 sample_answer) sample_cols [(0, row_abc1)] initial_state ! 1)) = 1 \<and>
   attempted (run_points sample_lib sample_cfg (sample_world (sample_table [row_abc1]) 200 sample_answer) sample_cols [(0, row_abc1)] initial_state ! 1) = 1"
  by (simp add: row_points_def run_defs cld_signature_def to_sign_def signed_names_def sign_params_def
        dict_literal_def utf8_char_def cld_transform_url_def str_replace_def opt_val_def
        initial_state_def)

text \<open>
  The theorem at a table with one valid row whose download answers 404.
\<close>

theorem counters_invariant_witness:
  "(1::nat) \<le> length [(0::nat, row_abc1)] \<and>
   processed (snd (run_rows sample_lib sample_cfg (sample_world (sample_table [row_abc1]) 404 sample_answer)
                     sample_cols (take 1 [(0, row_abc1)]) initial_state)) =
     int (length (out_rows (snd (run_rows sample_lib sample_cfg
                     (sample_world (sample_table [row_abc1]) 404 sample_answer)
                     sample_cols (take 1 [(0, row_abc1)]) initial_state)))) \<and>
   row_valid sample_lib sample_cols row_abc1 \<and>
   attempted (snd (process_row sample_lib sample_cfg (sample_world (sample_table [row_abc1]) 404 sample_answer)
                     sample_cols 0 row_abc1 initial_state)) = 1 \<and>
   processed (snd (process_row sample_lib sample_cfg (sample_world (sample_table [row_abc1]) 404 sample_answer)
                     sample_cols 0 row_abc1 initial_state)) = 0 \<and>
   out_rows (snd (process_row sample_lib sample_cfg (sample_world (sample_table [row_abc1]) 404 sample_answer)
                     sample_cols 0 row_abc1 initial_state)) = []"
proof -
  let ?w = "sample_world (sample_table [row_abc1]) 404 sample_answer"
  have k: "(1::nat) \<le> length [(0::nat, row_abc1)]" by simp
  have v: "row_valid sample_lib sample_cols row_abc1"
    by (simp add: row_valid_def row_get_def cell_str_def strip_chars_def is_space_def ustr_def
        sample_cols_def row_abc1_def)
  have u: "snd (upload_to_cloudinary sample_lib sample_cfg ?w 0
                  (cell_str sample_lib (row_get sample_cols row_abc1 (ustr ''Image'')))
                  (row_public_id sample_lib sample_cfg sample_cols row_abc1
                     (cell_str sample_lib (row_get sample_cols row_abc1 (ustr ''SKU''))))
                  (if optional_cell sample_lib sample_cols row_abc1 (ustr ''Starting Url'') \<noteq> []
                   then Some (optional_cell sample_lib sample_cols row_abc1 (ustr ''Starting Url''))
                   else None)) =
           Inl (RuntimeError (ustr ''Fetch failed (404) for URL: http://x/a.png''))"
    by (simp add: run_defs)
  have i: "attempted initial_state = 0" "processed initial_state = 0" "out_rows initial_state = []"
    by (simp_all add: initial_state_def)
  note t = counters_invariant [where lib = sample_lib and cfg = sample_cfg and w = ?w and cols = sample_cols
      and rows = "[(0, row_abc1)]" and row = row_abc1 and idx = 0 and st = initial_state
      and e = "RuntimeError (ustr ''Fetch failed (404) for URL: http://x/a.png'')"]
  from t k have a: "processed (snd (run_rows sample_lib sample_cfg ?w sample_cols
                     (take 1 [(0, row_abc1)]) initial_state)) =
     int (length (out_rows (snd (run_rows sample_lib sample_cfg ?w
                     sample_cols (take 1 [(0, row_abc1)]) initial_state))))"
    by blast
  from t v u have "attempted (snd (process_row sample_lib sample_cfg ?w sample_cols 0 row_abc1 initial_state)) =
      attempted initial_state + 1 \<and>
    processed (snd (process_row sample_lib sample_cfg ?w sample_cols 0 row_abc1 initial_state)) =
      processed initial_state \<and>
    out_rows (snd (process_row sample_lib sample_cfg ?w sample_cols 0 row_abc1 initial_state)) =
      out_rows initial_state"
    by blast
  with k v a i show ?thesis by simp
qed

end
